theory Spec2Isabelle
  imports Complex_Main "HOL-Library.Extended_Nat"
begin

section \<open>Numeric values\<close>

text \<open>
  A numpy float64 is not-a-number, an infinity or a number. Numbers are exact reals
  here: rounding, overflow of a finite result to infinity and the sign of zero are
  outside the model (every zero is the positive one). The operations follow IEEE 754
  otherwise: every comparison with not-a-number is false, not-a-number propagates
  through arithmetic, a nonzero number divided by zero is the infinity of its sign, and
  \<open>0 / 0\<close>, \<open>inf - inf\<close>, \<open>inf / inf\<close> and \<open>0 * inf\<close> are not-a-number. numpy
  reports these cases by warnings, which both modules silence; it does not raise.
\<close>

datatype fl = NaN | NInf | Fin real | PInf

text \<open>The infinity of a sign, and the sign of a value.\<close>

definition inf_of_sign :: "real \<Rightarrow> fl" where
  "inf_of_sign s = (if s = 0 then NaN else if 0 < s then PInf else NInf)"

fun fl_sign :: "fl \<Rightarrow> real" where
  "fl_sign (Fin a) = sgn a"
| "fl_sign PInf = 1"
| "fl_sign NInf = - 1"
| "fl_sign NaN = 0"

fun fl_neg :: "fl \<Rightarrow> fl" where
  "fl_neg (Fin a) = Fin (- a)"
| "fl_neg PInf = NInf"
| "fl_neg NInf = PInf"
| "fl_neg NaN = NaN"

fun fl_add :: "fl \<Rightarrow> fl \<Rightarrow> fl" where
  "fl_add (Fin a) (Fin b) = Fin (a + b)"
| "fl_add NaN _ = NaN"
| "fl_add _ NaN = NaN"
| "fl_add PInf NInf = NaN"
| "fl_add NInf PInf = NaN"
| "fl_add PInf _ = PInf"
| "fl_add _ PInf = PInf"
| "fl_add NInf _ = NInf"
| "fl_add _ NInf = NInf"

definition fl_sub :: "fl \<Rightarrow> fl \<Rightarrow> fl" where
  "fl_sub x y = fl_add x (fl_neg y)"

fun fl_mul :: "fl \<Rightarrow> fl \<Rightarrow> fl" where
  "fl_mul (Fin a) (Fin b) = Fin (a * b)"
| "fl_mul NaN _ = NaN"
| "fl_mul _ NaN = NaN"
| "fl_mul x y = inf_of_sign (fl_sign x * fl_sign y)"

fun fl_div :: "fl \<Rightarrow> fl \<Rightarrow> fl" where
  "fl_div (Fin a) (Fin b) = (if b = 0 then inf_of_sign (sgn a) else Fin (a / b))"
| "fl_div NaN _ = NaN"
| "fl_div _ NaN = NaN"
| "fl_div (Fin a) _ = Fin 0"
| "fl_div x (Fin b) = inf_of_sign (fl_sign x * (if b < 0 then - 1 else 1))"
| "fl_div _ _ = NaN"

fun fl_sqrt :: "fl \<Rightarrow> fl" where
  "fl_sqrt (Fin a) = (if a < 0 then NaN else Fin (sqrt a))"
| "fl_sqrt PInf = PInf"
| "fl_sqrt _ = NaN"


fun fl_lt :: "fl \<Rightarrow> fl \<Rightarrow> bool" where
  "fl_lt (Fin a) (Fin b) = (a < b)"
| "fl_lt NaN _ = False"
| "fl_lt _ NaN = False"
| "fl_lt _ NInf = False"
| "fl_lt PInf _ = False"
| "fl_lt _ _ = True"

fun fl_le :: "fl \<Rightarrow> fl \<Rightarrow> bool" where
  "fl_le (Fin a) (Fin b) = (a \<le> b)"
| "fl_le NaN _ = False"
| "fl_le _ NaN = False"
| "fl_le NInf _ = True"
| "fl_le _ PInf = True"
| "fl_le _ _ = False"

definition fl_gt :: "fl \<Rightarrow> fl \<Rightarrow> bool" where
  "fl_gt x y = fl_lt y x"

definition fl_ge :: "fl \<Rightarrow> fl \<Rightarrow> bool" where
  "fl_ge x y = fl_le y x"

fun isnan :: "fl \<Rightarrow> bool" where
  "isnan NaN = True"
| "isnan _ = False"

fun isfinite :: "fl \<Rightarrow> bool" where
  "isfinite (Fin _) = True"
| "isfinite _ = False"

text \<open>
  Python's built-in \<open>min(a, b)\<close> keeps its first argument unless the second is strictly
  smaller, so \<open>min(100, nan)\<close> is \<open>100\<close>.
\<close>

definition py_min :: "fl \<Rightarrow> fl \<Rightarrow> fl" where
  "py_min a b = (if fl_lt b a then b else a)"

datatype py_error = ValueError | FitError

datatype pyval = PyNone | PyFloat fl

section \<open>Recovery rate estimator (satellite_data_processor_v2.py)\<close>

text \<open>
  A \<open>datetime\<close> is its number of microseconds since the epoch; the \<open>days\<close> attribute of a
  difference of two of them is the floor of the difference in days.
\<close>

type_synonym datetime = int

definition timedelta_days :: "int \<Rightarrow> int" where
  "timedelta_days d = d div 86400000000"

text \<open>One row of the data frame built by \<open>process_time_series\<close>.\<close>

record TimeSeriesRecord =
  date :: datetime
  mean_ndvi :: fl
  std_ndvi :: fl
  mean_ndwi :: "fl option"
  mean_vv_backscatter :: "fl option"

text \<open>
  \<open>calculate_recovery_metrics\<close>. The data frame is the list of its rows; the returned
  dictionary is the list of its items in insertion order. \<open>np.polyfit(x, y, 1)[0]\<close> is
  numpy's, not this repository's: it is the parameter \<open>polyfit\<close>, which may return a
  slope or raise. The function is written in three pieces: the filter of line 219, the
  slope of lines 229-233, and the whole body.
\<close>

definition baseline_ndvi :: fl where
  "baseline_ndvi = Fin (6 / 10)"

definition post_flood_subset :: "TimeSeriesRecord list \<Rightarrow> datetime \<Rightarrow> TimeSeriesRecord list" where
  "post_flood_subset ndvi_time_series flood_date =
     filter (\<lambda>r. flood_date \<le> date r) ndvi_time_series"

definition recovery_rate_of ::
  "(int list \<Rightarrow> fl list \<Rightarrow> py_error + fl) \<Rightarrow> TimeSeriesRecord list \<Rightarrow> datetime
    \<Rightarrow> py_error + fl" where
  "recovery_rate_of polyfit post_flood flood_date =
     (if length post_flood > 1
      then polyfit (map (\<lambda>r. timedelta_days (date r - flood_date)) post_flood)
                   (map mean_ndvi post_flood)
      else Inr (Fin 0))"

text \<open>
  The expression of line 238, \<open>min(100, (current_ndvi / baseline_ndvi) * 100) if
  baseline_ndvi > 0 else 0\<close>, as a function of the two variables it reads.
\<close>

definition recovery_percentage_of :: "fl \<Rightarrow> fl \<Rightarrow> fl" where
  "recovery_percentage_of baseline current =
     (if fl_gt baseline (Fin 0)
      then py_min (Fin 100) (fl_mul (fl_div current baseline) (Fin 100))
      else Fin 0)"

definition calculate_recovery_metrics ::
  "(int list \<Rightarrow> fl list \<Rightarrow> py_error + fl) \<Rightarrow> TimeSeriesRecord list \<Rightarrow> datetime
    \<Rightarrow> py_error + (string \<times> pyval) list" where
  "calculate_recovery_metrics polyfit ndvi_time_series flood_date =
    (let post_flood = post_flood_subset ndvi_time_series flood_date in
     if length post_flood = 0 then
       Inr [(''recovery_rate'', PyFloat (Fin 0)),
            (''time_to_recovery_days'', PyNone),
            (''recovery_percentage'', PyFloat (Fin 0))]
     else
       case recovery_rate_of polyfit post_flood flood_date of
         Inl err \<Rightarrow> Inl err
       | Inr recovery_rate \<Rightarrow>
           (let current_ndvi = mean_ndvi (last post_flood);
                recovery_percentage = recovery_percentage_of baseline_ndvi current_ndvi;
                days_to_recovery =
                  (if fl_gt recovery_rate (Fin 0) \<and> fl_lt current_ndvi baseline_ndvi
                   then PyFloat (fl_div (fl_sub baseline_ndvi current_ndvi) recovery_rate)
                   else PyNone)
            in Inr [(''recovery_rate'', PyFloat recovery_rate),
                    (''time_to_recovery_days'', days_to_recovery),
                    (''recovery_percentage'', PyFloat recovery_percentage),
                    (''current_ndvi'', PyFloat current_ndvi),
                    (''baseline_ndvi'', PyFloat baseline_ndvi)]))"

definition dict_keys :: "(string \<times> pyval) list \<Rightarrow> string list" where
  "dict_keys d = map fst d"

text \<open>
  The spec's reading of the record of section 3: a returned dictionary that holds all
  five fields.
\<close>

definition has_all_five_fields :: "py_error + (string \<times> pyval) list \<Rightarrow> bool" where
  "has_all_five_fields res =
     (case res of
        Inl err \<Rightarrow> False
      | Inr d \<Rightarrow> list_all (\<lambda>k. k \<in> set (dict_keys d))
                 [''recovery_rate'', ''time_to_recovery_days'', ''recovery_percentage'',
                  ''current_ndvi'', ''baseline_ndvi''])"

text \<open>
  Modelled from the spec: numpy's degree-1 fit is a library outside the repository;
  section 4.3 names it as the ordinary-least-squares slope of mean NDVI against the days
  since the flood. \<open>ols_slope\<close> is that slope, as one instance of the parameter, used
  to run the model on concrete series. It raises where the normal equations are singular
  or an ordinate is not finite. numpy does raise when all abscissae are 0 (records dated
  on the flood day): \<open>polyfit\<close> divides each column of the Vandermonde matrix by its norm,
  the column of abscissae has norm 0, and the least-squares solver is handed
  not-a-number and raises \<open>LinAlgError\<close>. The theorems on
  \<open>calculate_recovery_metrics\<close> hold for every \<open>polyfit\<close>, not only for this one.
\<close>

fun fin_val :: "fl \<Rightarrow> real" where
  "fin_val (Fin a) = a"
| "fin_val _ = 0"

definition ols_slope :: "int list \<Rightarrow> fl list \<Rightarrow> py_error + fl" where
  "ols_slope xs ys =
     (if list_ex (\<lambda>v. \<not> isfinite v) ys then Inl FitError
      else
        (let n = real (length xs);
             x = map real_of_int xs;
             y = map fin_val ys;
             sx = sum_list x;
             sy = sum_list y;
             sxx = sum_list (map (\<lambda>a. a * a) x);
             sxy = sum_list (map (\<lambda>(a, b). a * b) (zip x y));
             den = n * sxx - sx * sx
         in if den = 0 then Inl FitError else Inr (Fin ((n * sxy - sx * sy) / den))))"

section \<open>Index calculator (satellite_data_processor_v2.py)\<close>

text \<open>
  A two-dimensional numpy array is its shape and its cells; a cell is read at
  \<open>(row, column)\<close> and only the cells inside the shape are part of the array.
\<close>

type_synonym pixel = "nat \<times> nat"

record 'a grid =
  gheight :: nat
  gwidth :: nat
  cell :: "pixel \<Rightarrow> 'a"

definition in_grid :: "nat \<Rightarrow> nat \<Rightarrow> pixel \<Rightarrow> bool" where
  "in_grid h w p = (fst p < h \<and> snd p < w)"

text \<open>The pixels of a \<open>h\<close> by \<open>w\<close> array in numpy's row-major order.\<close>

definition pixels :: "nat \<Rightarrow> nat \<Rightarrow> pixel list" where
  "pixels h w = List.product [0..<h] [0..<w]"






section \<open>Time-series aggregator (satellite_data_processor_v2.py)\<close>

text \<open>
  \<open>np.nanmean\<close> and \<open>np.nanstd\<close> over all cells of an array: the cells that are
  not-a-number are dropped; with no cell left the result is not-a-number (and a warning,
  which the module silences), never an exception.
\<close>

definition grid_values :: "'a grid \<Rightarrow> 'a list" where
  "grid_values g = map (cell g) (pixels (gheight g) (gwidth g))"

definition fl_sum :: "fl list \<Rightarrow> fl" where
  "fl_sum vs = foldl fl_add (Fin 0) vs"

definition nanmean :: "fl grid \<Rightarrow> fl" where
  "nanmean g =
     (let vs = filter (\<lambda>v. \<not> isnan v) (grid_values g) in
      if vs = [] then NaN else fl_div (fl_sum vs) (Fin (real (length vs))))"

definition nanstd :: "fl grid \<Rightarrow> fl" where
  "nanstd g =
     (let vs = filter (\<lambda>v. \<not> isnan v) (grid_values g) in
      if vs = [] then NaN
      else (let n = Fin (real (length vs));
                m = fl_div (fl_sum vs) n
            in fl_sqrt (fl_div (fl_sum (map (\<lambda>v. fl_mul (fl_sub v m) (fl_sub v m)) vs)) n)))"

text \<open>The dictionary returned by \<open>calculate_radar_backscatter\<close>; it always has its five keys.\<close>

record RadarMetrics =
  vv_db :: "fl grid"
  vh_db :: "fl grid"
  vv_linear :: "fl grid"
  vh_linear :: "fl grid"
  cross_ratio :: "fl grid"

text \<open>
  The row that \<open>process_time_series\<close> builds for the date \<open>d\<close> at index \<open>i\<close> (lines
  187-201), where \<open>i\<close> is inside \<open>ndvi_series\<close>: the NDWI and radar entries are
  \<open>None\<close> when their lists are shorter.
\<close>

definition time_series_row ::
  "fl grid list \<Rightarrow> fl grid list \<Rightarrow> RadarMetrics list \<Rightarrow> nat \<Rightarrow> datetime \<Rightarrow> TimeSeriesRecord" where
  "time_series_row ndvi_series ndwi_series radar_series i d =
     (let ndvi = ndvi_series ! i;
          ndwi = (if i < length ndwi_series then Some (ndwi_series ! i) else None);
          radar = (if i < length radar_series then Some (radar_series ! i) else None)
      in \<lparr>date = d,
          mean_ndvi = nanmean ndvi,
          std_ndvi = nanstd ndvi,
          mean_ndwi = map_option nanmean ndwi,
          mean_vv_backscatter = map_option (\<lambda>r. nanmean (vv_db r)) radar\<rparr>)"

text \<open>
  The loop of \<open>process_time_series\<close> over \<open>enumerate(dates)\<close>, with the list \<open>results\<close>
  as accumulator. A date whose index has no NDVI array adds no row.
\<close>

fun time_series_loop ::
  "fl grid list \<Rightarrow> fl grid list \<Rightarrow> RadarMetrics list \<Rightarrow> (nat \<times> datetime) list
    \<Rightarrow> TimeSeriesRecord list \<Rightarrow> TimeSeriesRecord list" where
  "time_series_loop ndvi_series ndwi_series radar_series [] results = results"
| "time_series_loop ndvi_series ndwi_series radar_series ((i, d) # rest) results =
     time_series_loop ndvi_series ndwi_series radar_series rest
       (if i < length ndvi_series
        then results @ [time_series_row ndvi_series ndwi_series radar_series i d]
        else results)"

definition process_time_series ::
  "datetime list \<Rightarrow> fl grid list \<Rightarrow> fl grid list \<Rightarrow> RadarMetrics list
    \<Rightarrow> py_error + TimeSeriesRecord list" where
  "process_time_series dates ndvi_series ndwi_series radar_series =
     (if dates = [] \<or> ndvi_series = [] then Inl ValueError
      else Inr (time_series_loop ndvi_series ndwi_series radar_series
                  (List.enumerate 0 dates) []))"

section \<open>Event-time estimator (satellite_data_processor_v3.py)\<close>

text \<open>
  The NDVI stack is a 3-D array of shape \<open>(time_steps, height, width)\<close>: the list of
  its frames, each a function of the pixel. The baseline and the threshold are arrays
  of the frames' shape. \<open>t_matrix\<close> holds whole numbers only (a step count), so its
  cells are naturals; \<open>e_matrix\<close> is an integer array.
\<close>

record ndvi_stack =
  height :: nat
  width :: nat
  frames :: "(pixel \<Rightarrow> fl) list"

text \<open>
  \<open>flood_mask[150:350, 150:350] = True\<close> on an all-false \<open>height\<close> by \<open>width\<close> array:
  the slice is clipped to the shape.
\<close>

definition flood_mask :: "nat \<Rightarrow> nat \<Rightarrow> pixel \<Rightarrow> bool" where
  "flood_mask h w p =
     (in_grid h w p \<and> 150 \<le> fst p \<and> fst p < 350 \<and> 150 \<le> snd p \<and> snd p < 350)"

text \<open>The loop over \<open>range(time_steps)\<close>; the state is \<open>(t_matrix, e_matrix)\<close>.\<close>

fun scan_loop ::
  "(pixel \<Rightarrow> fl) \<Rightarrow> (pixel \<Rightarrow> bool) \<Rightarrow> nat \<Rightarrow> (pixel \<Rightarrow> fl) list
    \<Rightarrow> (pixel \<Rightarrow> nat) \<times> (pixel \<Rightarrow> int) \<Rightarrow> (pixel \<Rightarrow> nat) \<times> (pixel \<Rightarrow> int)" where
  "scan_loop recovery_threshold fmask step [] te = te"
| "scan_loop recovery_threshold fmask step (current_ndvi # rest) te =
     scan_loop recovery_threshold fmask (Suc step) rest
       (let newly_healed =
              (\<lambda>p. fl_ge (current_ndvi p) (recovery_threshold p) \<and> snd te p = 0 \<and> fmask p)
        in ((\<lambda>p. if newly_healed p then step + 1 else fst te p),
            (\<lambda>p. if newly_healed p then 1 else snd te p)))"

text \<open>
  The state of the scan after its first \<open>n\<close> steps, from the initial matrices (every
  cell censored at \<open>time_steps\<close>, no event), and the state after all of them.
\<close>

definition event_time_scan_upto ::
  "nat \<Rightarrow> ndvi_stack \<Rightarrow> (pixel \<Rightarrow> fl) \<Rightarrow> (pixel \<Rightarrow> nat) \<times> (pixel \<Rightarrow> int)" where
  "event_time_scan_upto n ndvi_stack recovery_threshold =
     scan_loop recovery_threshold (flood_mask (height ndvi_stack) (width ndvi_stack)) 0
       (take n (frames ndvi_stack))
       ((\<lambda>p. length (frames ndvi_stack)), (\<lambda>p. 0))"

definition event_time_scan ::
  "ndvi_stack \<Rightarrow> (pixel \<Rightarrow> fl) \<Rightarrow> (pixel \<Rightarrow> nat) \<times> (pixel \<Rightarrow> int)" where
  "event_time_scan ndvi_stack recovery_threshold =
     scan_loop recovery_threshold (flood_mask (height ndvi_stack) (width ndvi_stack)) 0
       (frames ndvi_stack)
       ((\<lambda>p. length (frames ndvi_stack)), (\<lambda>p. 0))"

text \<open>Boolean indexing \<open>a[mask]\<close>: the selected cells in row-major order.\<close>

definition flooded_pixels :: "nat \<Rightarrow> nat \<Rightarrow> pixel list" where
  "flooded_pixels h w = filter (flood_mask h w) (pixels h w)"

section \<open>Survival fit\<close>

text \<open>
  Modelled from the spec: the Kaplan-Meier fitter is the lifelines library, outside the
  repository. Sections 4.4 and the glossary give it as the non-parametric product-limit
  estimate of the survival function from (duration, event observed) pairs, and the
  median as the time at which the estimated survival probability first reaches 0.5 or
  less (infinite when it never does). Durations are whole step counts, so the estimate
  is the product over the times \<open>0..t\<close> of the factors \<open>1 - d/n\<close>, with \<open>d\<close> the events
  at that time and \<open>n\<close> the observations still at risk; a time without events has factor 1.
\<close>

definition at_risk :: "(nat \<times> bool) list \<Rightarrow> nat \<Rightarrow> nat" where
  "at_risk obs t = length (filter (\<lambda>ob. t \<le> fst ob) obs)"

definition events_at :: "(nat \<times> bool) list \<Rightarrow> nat \<Rightarrow> nat" where
  "events_at obs t = length (filter (\<lambda>ob. fst ob = t \<and> snd ob) obs)"

definition km_factor :: "(nat \<times> bool) list \<Rightarrow> nat \<Rightarrow> real" where
  "km_factor obs t =
     (if events_at obs t = 0 then 1 else 1 - real (events_at obs t) / real (at_risk obs t))"

fun km_survival :: "(nat \<times> bool) list \<Rightarrow> nat \<Rightarrow> real" where
  "km_survival obs 0 = km_factor obs 0"
| "km_survival obs (Suc t) = km_survival obs t * km_factor obs (Suc t)"

definition km_median :: "(nat \<times> bool) list \<Rightarrow> enat" where
  "km_median obs =
     (case find (\<lambda>t. km_survival obs t \<le> 1 / 2) [0..<Suc (fold max (map fst obs) 0)] of
        None \<Rightarrow> \<infinity>
      | Some t \<Rightarrow> enat t)"

text \<open>
  The fitter object \<open>self.kmf\<close>: its state is the list of the \<open>fit\<close> calls it has
  received, each with its durations and its event flags. \<open>median_survival_time_\<close> reads
  the latest fit.
\<close>

record KaplanMeierFitter =
  fit_calls :: "(nat list \<times> int list) list"

definition kmf_fit :: "KaplanMeierFitter \<Rightarrow> nat list \<Rightarrow> int list \<Rightarrow> KaplanMeierFitter" where
  "kmf_fit kmf durations event_observed =
     kmf\<lparr>fit_calls := fit_calls kmf @ [(durations, event_observed)]\<rparr>"

definition median_survival_time :: "KaplanMeierFitter \<Rightarrow> enat" where
  "median_survival_time kmf =
     (case rev (fit_calls kmf) of
        [] \<Rightarrow> \<infinity>
      | (durations, event_observed) # _ \<Rightarrow>
          km_median (zip durations (map (\<lambda>e. e \<noteq> 0) event_observed)))"

record survival_metrics =
  median_recovery_time :: enat
  confidence_score :: fl
  recovery_map :: "pixel \<Rightarrow> nat"

text \<open>\<open>np.mean\<close> of a non-empty integer array, as a float.\<close>

definition np_mean_int :: "int list \<Rightarrow> fl" where
  "np_mean_int xs = (if xs = [] then NaN else Fin (real_of_int (sum_list xs) / real (length xs)))"

text \<open>
  \<open>run_survival_analysis\<close> from the threshold on (lines 69-108), and the whole method:
  without the lifelines library \<open>self.kmf\<close> is \<open>None\<close> and the method returns \<open>None\<close>;
  otherwise the threshold is \<open>baseline_ndvi * 0.9\<close>. The second component is the
  fitter after the call.
\<close>

definition survival_at_threshold ::
  "KaplanMeierFitter \<Rightarrow> ndvi_stack \<Rightarrow> (pixel \<Rightarrow> fl) \<Rightarrow> survival_metrics \<times> KaplanMeierFitter" where
  "survival_at_threshold kmf ndvi_stack recovery_threshold =
     (let te = event_time_scan ndvi_stack recovery_threshold;
          t_matrix = fst te;
          e_matrix = snd te;
          flooded_t = map t_matrix (flooded_pixels (height ndvi_stack) (width ndvi_stack));
          flooded_e = map e_matrix (flooded_pixels (height ndvi_stack) (width ndvi_stack))
      in if length flooded_t > 0 then
           (let kmf' = kmf_fit kmf flooded_t flooded_e in
            (\<lparr>median_recovery_time = median_survival_time kmf',
              confidence_score = fl_mul (np_mean_int flooded_e) (Fin 100),
              recovery_map = t_matrix\<rparr>, kmf'))
         else
           (\<lparr>median_recovery_time = 0,
             confidence_score = Fin 0,
             recovery_map = t_matrix\<rparr>, kmf))"

definition recovery_threshold_of :: "(pixel \<Rightarrow> fl) \<Rightarrow> pixel \<Rightarrow> fl" where
  "recovery_threshold_of baseline = (\<lambda>p. fl_mul (baseline p) (Fin (9 / 10)))"

definition run_survival_analysis ::
  "KaplanMeierFitter option \<Rightarrow> ndvi_stack \<Rightarrow> (pixel \<Rightarrow> fl)
    \<Rightarrow> survival_metrics option \<times> KaplanMeierFitter option" where
  "run_survival_analysis kmf_opt ndvi_stack baseline =
     (case kmf_opt of
        None \<Rightarrow> (None, None)
      | Some kmf \<Rightarrow>
          (let r = survival_at_threshold kmf ndvi_stack (recovery_threshold_of baseline)
           in (Some (fst r), Some (snd r))))"

text \<open>
  Two notions for reasoning about the fit: a sample whose durations are at most \<open>K\<close>
  and whose censored observations all sit at \<open>K\<close>, and the number of events observed
  up to a time.
\<close>

definition censored_at :: "nat \<Rightarrow> (nat \<times> bool) list \<Rightarrow> bool" where
  "censored_at K obs = (\<forall>ob \<in> set obs. fst ob \<le> K \<and> (\<not> snd ob \<longrightarrow> fst ob = K))"

definition events_upto :: "(nat \<times> bool) list \<Rightarrow> nat \<Rightarrow> nat" where
  "events_upto obs t = length (filter (\<lambda>ob. snd ob \<and> fst ob \<le> t) obs)"

section \<open>Concrete inputs\<close>

text \<open>
  The series of the scenario of section 8: mean NDVI 0.3, 0.35, 0.4, 0.45 at days 0, 30,
  60 and 90 after the flood.
\<close>

definition ts_row :: "int \<Rightarrow> real \<Rightarrow> TimeSeriesRecord" where
  "ts_row day v = \<lparr>date = day * 86400000000, mean_ndvi = Fin v, std_ndvi = Fin 0,
                   mean_ndwi = None, mean_vv_backscatter = None\<rparr>"

definition scenario_series :: "TimeSeriesRecord list" where
  "scenario_series = [ts_row 0 (3 / 10), ts_row 30 (35 / 100), ts_row 60 (4 / 10), ts_row 90 (45 / 100)]"

text \<open>Two records dated on the flood day itself (day 0), the later one above the baseline.\<close>

definition same_day_series :: "TimeSeriesRecord list" where
  "same_day_series = [ts_row 0 (3 / 10), ts_row 0 (7 / 10)]"

text \<open>
  Small arrays: a constant one, and a red and a near-infrared band of one row and three
  columns. In the second column both bands are 0; in the third they are opposite, so
  their sum is 0 while their difference is not.
\<close>

definition const_grid :: "nat \<Rightarrow> nat \<Rightarrow> fl \<Rightarrow> fl grid" where
  "const_grid h w v = \<lparr>gheight = h, gwidth = w, cell = (\<lambda>p. v)\<rparr>"



definition example_radar :: RadarMetrics where
  "example_radar =
     \<lparr>vv_db = const_grid 1 1 (Fin (- 10)), vh_db = const_grid 1 1 (Fin (- 20)),
      vv_linear = const_grid 1 1 (Fin (1 / 10)), vh_linear = const_grid 1 1 (Fin (1 / 100)),
      cross_ratio = const_grid 1 1 (Fin 10)\<rparr>"

text \<open>
  A stack of four frames on a 152 by 152 grid, whose flood mask is the four pixels of
  rows and columns 150 and 151. Its first three frames are the scenario of section 8 (the
  second frame is 0.55 in the even columns and 0.4 in the odd ones); in the fourth the
  NDVI drops to 0.3 everywhere. With the baseline 0.6 the threshold is 0.54; with 0.7 it
  is 0.63, which no frame reaches.
\<close>

definition example_stack :: ndvi_stack where
  "example_stack =
     \<lparr>height = 152, width = 152,
      frames = [(\<lambda>p. Fin (5 / 10)),
                (\<lambda>p. if even (snd p) then Fin (55 / 100) else Fin (4 / 10)),
                (\<lambda>p. Fin (6 / 10)),
                (\<lambda>p. Fin (3 / 10))]\<rparr>"

definition example_baseline :: "pixel \<Rightarrow> fl" where
  "example_baseline = (\<lambda>p. Fin (6 / 10))"

definition example_kmf :: KaplanMeierFitter where
  "example_kmf = \<lparr>fit_calls = []\<rparr>"

definition high_baseline :: "pixel \<Rightarrow> fl" where
  "high_baseline = (\<lambda>p. Fin (7 / 10))"

text \<open>A baseline of 0.65: the threshold 0.585 is first reached in the third frame.\<close>

definition mid_baseline :: "pixel \<Rightarrow> fl" where
  "mid_baseline = (\<lambda>p. Fin (65 / 100))"

text \<open>A stack on a 2 by 2 grid: no pixel of it lies inside the flood mask.\<close>

definition small_stack :: ndvi_stack where
  "small_stack = \<lparr>height = 2, width = 2, frames = [(\<lambda>p. Fin (9 / 10))]\<rparr>"

section \<open>Properties of the numeric values\<close>

lemma fl_sub_Fin [simp]: "fl_sub (Fin a) (Fin b) = Fin (a - b)"
  by (simp add: fl_sub_def)

lemma fl_sub_NaN [simp]: "fl_sub x NaN = NaN" "fl_sub NaN x = NaN"
  by (cases x; simp add: fl_sub_def)+

lemma inf_of_sign_simps [simp]:
  "inf_of_sign 1 = PInf" "inf_of_sign (- 1) = NInf" "inf_of_sign 0 = NaN"
  by (simp_all add: inf_of_sign_def)

lemma fl_div_by_NaN [simp]: "fl_div x NaN = NaN"
  by (cases x) simp_all

section \<open>Properties of the recovery rate estimator\<close>

lemma py_min_100_le: "fl_le (py_min (Fin 100) x) (Fin 100)"
  by (cases x) (simp_all add: py_min_def)

lemma calculate_recovery_metrics_empty:
  assumes "post_flood_subset ts fd = []"
  shows "calculate_recovery_metrics polyfit ts fd =
     Inr [(''recovery_rate'', PyFloat (Fin 0)),
          (''time_to_recovery_days'', PyNone),
          (''recovery_percentage'', PyFloat (Fin 0))]"
  using assms by (simp add: calculate_recovery_metrics_def)

lemma calculate_recovery_metrics_raises:
  assumes "post_flood_subset ts fd \<noteq> []"
    and "recovery_rate_of polyfit (post_flood_subset ts fd) fd = Inl err"
  shows "calculate_recovery_metrics polyfit ts fd = Inl err"
  using assms by (simp add: calculate_recovery_metrics_def)

lemma calculate_recovery_metrics_nonempty:
  assumes "post_flood_subset ts fd \<noteq> []"
    and "recovery_rate_of polyfit (post_flood_subset ts fd) fd = Inr recovery_rate"
  shows "calculate_recovery_metrics polyfit ts fd =
         Inr [(''recovery_rate'', PyFloat recovery_rate),
              (''time_to_recovery_days'',
                 if fl_gt recovery_rate (Fin 0)
                    \<and> fl_lt (mean_ndvi (last (post_flood_subset ts fd))) baseline_ndvi
                 then PyFloat (fl_div (fl_sub baseline_ndvi
                                   (mean_ndvi (last (post_flood_subset ts fd)))) recovery_rate)
                 else PyNone),
              (''recovery_percentage'',
                 PyFloat (recovery_percentage_of baseline_ndvi
                            (mean_ndvi (last (post_flood_subset ts fd))))),
              (''current_ndvi'', PyFloat (mean_ndvi (last (post_flood_subset ts fd)))),
              (''baseline_ndvi'', PyFloat baseline_ndvi)]"
  using assms by (simp add: calculate_recovery_metrics_def Let_def)

lemma scenario_post_flood: "post_flood_subset scenario_series 0 = scenario_series"
  by (simp add: post_flood_subset_def scenario_series_def ts_row_def)

lemma scenario_rate: "recovery_rate_of ols_slope scenario_series 0 = Inr (Fin (1 / 600))"
  by (simp add: recovery_rate_of_def scenario_series_def ts_row_def ols_slope_def
      timedelta_days_def Let_def)

lemma single_post_flood: "post_flood_subset [ts_row 0 (3 / 10), ts_row 30 (7 / 10)] 86400000000 = [ts_row 30 (7 / 10)]"
  by (simp add: post_flood_subset_def ts_row_def)

text \<open>
  C2 (as stated, it fails). The claim: the dictionary returned by
  \<open>calculate_recovery_metrics\<close> holds all five fields for every input, also when the
  post-flood subset is empty. With one record dated before the flood the subset is empty and
  the early return of lines 221-226 gives three fields only.
\<close>

theorem recovery_metrics_fields_counterexample:
  "\<not> has_all_five_fields (calculate_recovery_metrics ols_slope [ts_row 0 (3 / 10)] 86400000000)"
  by (simp add: calculate_recovery_metrics_def post_flood_subset_def ts_row_def
      has_all_five_fields_def dict_keys_def)

text \<open>
  C2 (amended). With an empty post-flood subset the returned dictionary has exactly the
  three fields \<open>recovery_rate\<close>, \<open>time_to_recovery_days\<close> and \<open>recovery_percentage\<close>;
  with a non-empty one, whenever the regression step yields a rate, it has all five
  fields, \<open>current_ndvi\<close> and \<open>baseline_ndvi\<close> included.
\<close>

theorem recovery_metrics_fields:
  "(post_flood_subset ts fd = [] \<longrightarrow>
      (\<exists>d. calculate_recovery_metrics polyfit ts fd = Inr d \<and>
           dict_keys d = [''recovery_rate'', ''time_to_recovery_days'', ''recovery_percentage'']))
   \<and> (post_flood_subset ts fd \<noteq> [] \<longrightarrow>
      (\<forall>rate. recovery_rate_of polyfit (post_flood_subset ts fd) fd = Inr rate \<longrightarrow>
         has_all_five_fields (calculate_recovery_metrics polyfit ts fd) \<and>
         (\<exists>d. calculate_recovery_metrics polyfit ts fd = Inr d \<and>
           dict_keys d = [''recovery_rate'', ''time_to_recovery_days'', ''recovery_percentage'',
                          ''current_ndvi'', ''baseline_ndvi''])))"
  by (auto simp: calculate_recovery_metrics_empty calculate_recovery_metrics_nonempty
      dict_keys_def has_all_five_fields_def)

theorem recovery_metrics_fields_witness:
  "post_flood_subset [ts_row 0 (3 / 10)] 86400000000 = [] \<and>
   (\<exists>d. calculate_recovery_metrics ols_slope [ts_row 0 (3 / 10)] 86400000000 = Inr d \<and>
           dict_keys d = [''recovery_rate'', ''time_to_recovery_days'', ''recovery_percentage''])
   \<and> post_flood_subset scenario_series 0 \<noteq> []
   \<and> recovery_rate_of ols_slope (post_flood_subset scenario_series 0) 0 = Inr (Fin (1 / 600))
   \<and> has_all_five_fields (calculate_recovery_metrics ols_slope scenario_series 0)"
proof -
  have e: "post_flood_subset [ts_row 0 (3 / 10)] 86400000000 = []"
    by (simp add: post_flood_subset_def ts_row_def)
  have n: "post_flood_subset scenario_series 0 \<noteq> []"
    by (simp add: scenario_post_flood) (simp add: scenario_series_def)
  have r: "recovery_rate_of ols_slope (post_flood_subset scenario_series 0) 0 = Inr (Fin (1 / 600))"
    by (simp add: scenario_post_flood scenario_rate)
  show ?thesis
    using recovery_metrics_fields [of "[ts_row 0 (3 / 10)]" 86400000000 ols_slope]
      recovery_metrics_fields [of scenario_series 0 ols_slope] e n r
    by blast
qed

lemma same_day_post_flood: "post_flood_subset same_day_series 0 = same_day_series"
  by (simp add: post_flood_subset_def same_day_series_def ts_row_def)

lemma same_day_rate: "recovery_rate_of ols_slope same_day_series 0 = Inl FitError"
  by (simp add: recovery_rate_of_def same_day_series_def ts_row_def ols_slope_def
      timedelta_days_def Let_def)

text \<open>
  C3 (as stated, it fails). The claim: for every non-empty post-flood subset the function
  returns \<open>time_to_recovery_days\<close>, null in every case other than \<open>recovery_rate > 0\<close>
  and \<open>current_ndvi < baseline_ndvi\<close>, never raising. With two records dated on the flood
  day the subset is non-empty and \<open>current_ndvi\<close> is 0.7, not below the baseline, so this
  is one of the other cases; the regression of line 231 is called on the abscissae
  \<open>[0, 0]\<close> and raises, and the function raises with it.
\<close>

theorem time_to_recovery_raises_counterexample:
  "post_flood_subset same_day_series 0 \<noteq> [] \<and>
   \<not> fl_lt (mean_ndvi (last (post_flood_subset same_day_series 0))) baseline_ndvi \<and>
   calculate_recovery_metrics ols_slope same_day_series 0 = Inl FitError"
proof -
  have n: "post_flood_subset same_day_series 0 \<noteq> []"
    by (simp add: same_day_post_flood) (simp add: same_day_series_def)
  have c: "\<not> fl_lt (mean_ndvi (last (post_flood_subset same_day_series 0))) baseline_ndvi"
    by (simp add: same_day_post_flood) (simp add: same_day_series_def ts_row_def baseline_ndvi_def)
  have r: "recovery_rate_of ols_slope (post_flood_subset same_day_series 0) 0 = Inl FitError"
    by (simp add: same_day_post_flood same_day_rate)
  show ?thesis
    using n c calculate_recovery_metrics_raises [OF n r] by simp
qed

text \<open>
  C3 (amended). For a non-empty post-flood subset: when the regression step raises, the
  function raises that error; a single record never raises (the rate is 0 without a
  call); and when the step yields a rate, the function returns a dictionary whose
  \<open>time_to_recovery_days\<close> is \<open>(baseline_ndvi - current_ndvi) / recovery_rate\<close> exactly
  when \<open>recovery_rate > 0\<close> and \<open>current_ndvi < baseline_ndvi\<close>, and \<open>None\<close> in every
  other case, with \<open>current_ndvi\<close> the mean NDVI of the last post-flood record and
  \<open>baseline_ndvi\<close> 0.6.
\<close>

theorem time_to_recovery_cases:
  assumes "post_flood_subset ts fd \<noteq> []"
  shows "(\<forall>err. recovery_rate_of polyfit (post_flood_subset ts fd) fd = Inl err \<longrightarrow>
            calculate_recovery_metrics polyfit ts fd = Inl err)
   \<and> (length (post_flood_subset ts fd) = 1 \<longrightarrow>
        recovery_rate_of polyfit (post_flood_subset ts fd) fd = Inr (Fin 0))
   \<and> (\<forall>rate. recovery_rate_of polyfit (post_flood_subset ts fd) fd = Inr rate \<longrightarrow>
        (\<exists>d. calculate_recovery_metrics polyfit ts fd = Inr d \<and>
           map_of d ''recovery_rate'' = Some (PyFloat rate) \<and>
           map_of d ''current_ndvi'' = Some (PyFloat (mean_ndvi (last (post_flood_subset ts fd)))) \<and>
           map_of d ''baseline_ndvi'' = Some (PyFloat (Fin (6 / 10))) \<and>
           map_of d ''time_to_recovery_days'' =
             Some (if fl_gt rate (Fin 0)
                      \<and> fl_lt (mean_ndvi (last (post_flood_subset ts fd))) (Fin (6 / 10))
                   then PyFloat (fl_div (fl_sub (Fin (6 / 10))
                                   (mean_ndvi (last (post_flood_subset ts fd)))) rate)
                   else PyNone) \<and>
           (\<forall>r c. rate = Fin r \<longrightarrow> mean_ndvi (last (post_flood_subset ts fd)) = Fin c \<longrightarrow>
              map_of d ''time_to_recovery_days'' =
                Some (if 0 < r \<and> c < 6 / 10 then PyFloat (Fin ((6 / 10 - c) / r)) else PyNone))))"
proof (intro conjI allI impI)
  fix err
  assume "recovery_rate_of polyfit (post_flood_subset ts fd) fd = Inl err"
  with assms show "calculate_recovery_metrics polyfit ts fd = Inl err"
    by (rule calculate_recovery_metrics_raises)
next
  assume "length (post_flood_subset ts fd) = 1"
  then show "recovery_rate_of polyfit (post_flood_subset ts fd) fd = Inr (Fin 0)"
    by (simp add: recovery_rate_of_def)
next
  fix rate
  assume r: "recovery_rate_of polyfit (post_flood_subset ts fd) fd = Inr rate"
  let ?cur = "mean_ndvi (last (post_flood_subset ts fd))"
  show "\<exists>d. calculate_recovery_metrics polyfit ts fd = Inr d \<and>
           map_of d ''recovery_rate'' = Some (PyFloat rate) \<and>
           map_of d ''current_ndvi'' = Some (PyFloat ?cur) \<and>
           map_of d ''baseline_ndvi'' = Some (PyFloat (Fin (6 / 10))) \<and>
           map_of d ''time_to_recovery_days'' =
             Some (if fl_gt rate (Fin 0) \<and> fl_lt ?cur (Fin (6 / 10))
                   then PyFloat (fl_div (fl_sub (Fin (6 / 10)) ?cur) rate)
                   else PyNone) \<and>
           (\<forall>r c. rate = Fin r \<longrightarrow> ?cur = Fin c \<longrightarrow>
              map_of d ''time_to_recovery_days'' =
                Some (if 0 < r \<and> c < 6 / 10 then PyFloat (Fin ((6 / 10 - c) / r)) else PyNone))"
    unfolding calculate_recovery_metrics_nonempty [OF assms r]
    by (auto simp: baseline_ndvi_def fl_gt_def)
qed


theorem time_to_recovery_cases_witness:
  "post_flood_subset scenario_series 0 \<noteq> [] \<and>
   recovery_rate_of ols_slope (post_flood_subset scenario_series 0) 0 = Inr (Fin (1 / 600)) \<and>
   (\<exists>d. calculate_recovery_metrics ols_slope scenario_series 0 = Inr d \<and>
        map_of d ''recovery_rate'' = Some (PyFloat (Fin (1 / 600))) \<and>
        map_of d ''current_ndvi'' = Some (PyFloat (Fin (45 / 100))) \<and>
        map_of d ''time_to_recovery_days'' = Some (PyFloat (Fin 90))) \<and>
   post_flood_subset same_day_series 0 \<noteq> [] \<and>
   recovery_rate_of ols_slope (post_flood_subset same_day_series 0) 0 = Inl FitError \<and>
   calculate_recovery_metrics ols_slope same_day_series 0 = Inl FitError"
proof -
  have n: "post_flood_subset scenario_series 0 \<noteq> []"
    by (simp add: scenario_post_flood) (simp add: scenario_series_def)
  have l: "mean_ndvi (last (post_flood_subset scenario_series 0)) = Fin (45 / 100)"
    by (simp add: scenario_post_flood) (simp add: scenario_series_def ts_row_def)
  have r: "recovery_rate_of ols_slope (post_flood_subset scenario_series 0) 0 = Inr (Fin (1 / 600))"
    by (simp add: scenario_post_flood scenario_rate)
  note returns = time_to_recovery_cases [OF n, of ols_slope, THEN conjunct2, THEN conjunct2,
      THEN spec, THEN mp, OF r]
  then obtain d where d: "calculate_recovery_metrics ols_slope scenario_series 0 = Inr d"
      "map_of d ''recovery_rate'' = Some (PyFloat (Fin (1 / 600)))"
      "map_of d ''current_ndvi''
         = Some (PyFloat (mean_ndvi (last (post_flood_subset scenario_series 0))))"
      "map_of d ''time_to_recovery_days'' =
             Some (if fl_gt (Fin (1 / 600)) (Fin 0)
                      \<and> fl_lt (mean_ndvi (last (post_flood_subset scenario_series 0))) (Fin (6 / 10))
                   then PyFloat (fl_div (fl_sub (Fin (6 / 10))
                                   (mean_ndvi (last (post_flood_subset scenario_series 0))))
                                 (Fin (1 / 600)))
                   else PyNone)"
    by blast
  have t: "map_of d ''time_to_recovery_days'' = Some (PyFloat (Fin 90))"
    using d(4) unfolding l by (simp add: fl_gt_def)
  have c: "map_of d ''current_ndvi'' = Some (PyFloat (Fin (45 / 100)))"
    using d(3) unfolding l .
  have a: "\<exists>d. calculate_recovery_metrics ols_slope scenario_series 0 = Inr d \<and>
        map_of d ''recovery_rate'' = Some (PyFloat (Fin (1 / 600))) \<and>
        map_of d ''current_ndvi'' = Some (PyFloat (Fin (45 / 100))) \<and>
        map_of d ''time_to_recovery_days'' = Some (PyFloat (Fin 90))"
    using d(1,2) c t by blast
  have n2: "post_flood_subset same_day_series 0 \<noteq> []"
    by (simp add: same_day_post_flood) (simp add: same_day_series_def)
  have r2: "recovery_rate_of ols_slope (post_flood_subset same_day_series 0) 0 = Inl FitError"
    by (simp add: same_day_post_flood same_day_rate)
  have e: "calculate_recovery_metrics ols_slope same_day_series 0 = Inl FitError"
    by (rule time_to_recovery_cases [OF n2, of ols_slope, THEN conjunct1, THEN spec, THEN mp, OF r2])
  show ?thesis
    using n r a n2 r2 e by (intro conjI)
qed

lemma recovery_percentage_of_finite:
  "recovery_percentage_of (Fin b) (Fin c) = (if 0 < b then Fin (min 100 (100 * c / b)) else Fin 0)"
  by (simp add: recovery_percentage_of_def fl_gt_def py_min_def min_def mult.commute)

lemma recovery_percentage_of_nan:
  "recovery_percentage_of (Fin (6 / 10)) NaN = Fin 100"
  by (simp add: recovery_percentage_of_def fl_gt_def py_min_def)

lemma recovery_percentage_of_le: "fl_le (recovery_percentage_of b c) (Fin 100)"
  by (simp add: recovery_percentage_of_def py_min_100_le)

text \<open>
  C4. For a non-empty post-flood subset, the returned \<open>recovery_percentage\<close> is
  \<open>min(100, 100 * current_ndvi / baseline_ndvi)\<close>, with \<open>current_ndvi\<close> the mean NDVI of
  the last post-flood record and \<open>baseline_ndvi\<close> the literal 0.6; it is 100 when
  \<open>current_ndvi\<close> is not-a-number, and it is at most 100 in every case. The expression
  of line 238 gives the minimum for every positive baseline and 0 for every other one.
\<close>

theorem recovery_percentage_clamped:
  assumes "post_flood_subset ts fd \<noteq> []"
  shows "(\<forall>rate. recovery_rate_of polyfit (post_flood_subset ts fd) fd = Inr rate \<longrightarrow>
            (\<exists>d. calculate_recovery_metrics polyfit ts fd = Inr d))
   \<and> (\<forall>d. calculate_recovery_metrics polyfit ts fd = Inr d \<longrightarrow>
        map_of d ''current_ndvi'' = Some (PyFloat (mean_ndvi (last (post_flood_subset ts fd)))) \<and>
        map_of d ''baseline_ndvi'' = Some (PyFloat (Fin (6 / 10))) \<and>
        (\<exists>pct. map_of d ''recovery_percentage'' = Some (PyFloat pct) \<and>
           pct = recovery_percentage_of (Fin (6 / 10)) (mean_ndvi (last (post_flood_subset ts fd))) \<and>
           (\<forall>c. mean_ndvi (last (post_flood_subset ts fd)) = Fin c \<longrightarrow>
                pct = Fin (min 100 (100 * c / (6 / 10)))) \<and>
           (isnan (mean_ndvi (last (post_flood_subset ts fd))) \<longrightarrow> pct = Fin 100) \<and>
           fl_le pct (Fin 100)))
   \<and> (\<forall>b c. recovery_percentage_of (Fin b) (Fin c) =
              (if 0 < b then Fin (min 100 (100 * c / b)) else Fin 0))
   \<and> (\<forall>b c. fl_le (recovery_percentage_of b c) (Fin 100))"
proof (intro conjI allI impI)
  fix rate
  assume "recovery_rate_of polyfit (post_flood_subset ts fd) fd = Inr rate"
  then show "\<exists>d. calculate_recovery_metrics polyfit ts fd = Inr d"
    using calculate_recovery_metrics_nonempty [OF assms] by blast
next
  fix d
  assume d: "calculate_recovery_metrics polyfit ts fd = Inr d"
  let ?cur = "mean_ndvi (last (post_flood_subset ts fd))"
  obtain rate where r: "recovery_rate_of polyfit (post_flood_subset ts fd) fd = Inr rate"
  proof (cases "recovery_rate_of polyfit (post_flood_subset ts fd) fd")
    case (Inl err)
    then have "calculate_recovery_metrics polyfit ts fd = Inl err"
      using assms by (simp add: calculate_recovery_metrics_raises)
    with d show ?thesis by simp
  next
    case (Inr rate)
    then show ?thesis by (rule that)
  qed
  have fields: "map_of d ''current_ndvi'' = Some (PyFloat ?cur)"
      "map_of d ''baseline_ndvi'' = Some (PyFloat (Fin (6 / 10)))"
      "map_of d ''recovery_percentage'' = Some (PyFloat (recovery_percentage_of (Fin (6 / 10)) ?cur))"
    using d unfolding calculate_recovery_metrics_nonempty [OF assms r]
    by (auto simp: baseline_ndvi_def)
  show "map_of d ''current_ndvi'' = Some (PyFloat ?cur)"
    by (rule fields(1))
  show "map_of d ''baseline_ndvi'' = Some (PyFloat (Fin (6 / 10)))"
    by (rule fields(2))
  have fin: "recovery_percentage_of (Fin (6 / 10)) ?cur = Fin (min 100 (100 * c / (6 / 10)))"
    if "?cur = Fin c" for c
    unfolding that recovery_percentage_of_finite by simp
  have nan: "recovery_percentage_of (Fin (6 / 10)) ?cur = Fin 100" if "isnan ?cur"
    using that recovery_percentage_of_nan by (cases ?cur) simp_all
  show "\<exists>pct. map_of d ''recovery_percentage'' = Some (PyFloat pct) \<and>
           pct = recovery_percentage_of (Fin (6 / 10)) ?cur \<and>
           (\<forall>c. ?cur = Fin c \<longrightarrow> pct = Fin (min 100 (100 * c / (6 / 10)))) \<and>
           (isnan ?cur \<longrightarrow> pct = Fin 100) \<and>
           fl_le pct (Fin 100)"
    using fields(3) fin nan recovery_percentage_of_le by blast
next
  fix b c
  show "recovery_percentage_of (Fin b) (Fin c) =
        (if 0 < b then Fin (min 100 (100 * c / b)) else Fin 0)"
    by (rule recovery_percentage_of_finite)
next
  fix b c
  show "fl_le (recovery_percentage_of b c) (Fin 100)"
    by (rule recovery_percentage_of_le)
qed


theorem recovery_percentage_clamped_witness:
  "post_flood_subset scenario_series 0 \<noteq> [] \<and>
   (\<exists>d. calculate_recovery_metrics ols_slope scenario_series 0 = Inr d \<and>
        map_of d ''current_ndvi'' = Some (PyFloat (Fin (45 / 100))) \<and>
        map_of d ''recovery_percentage'' = Some (PyFloat (Fin 75))) \<and>
   post_flood_subset [ts_row 0 (3 / 10), ts_row 30 (7 / 10)] 86400000000 \<noteq> [] \<and>
   (\<exists>d. calculate_recovery_metrics ols_slope [ts_row 0 (3 / 10), ts_row 30 (7 / 10)] 86400000000
           = Inr d \<and>
        map_of d ''current_ndvi'' = Some (PyFloat (Fin (7 / 10))) \<and>
        map_of d ''recovery_percentage'' = Some (PyFloat (Fin 100)))"
proof -
  have n: "post_flood_subset scenario_series 0 \<noteq> []"
    by (simp add: scenario_post_flood) (simp add: scenario_series_def)
  have l: "mean_ndvi (last (post_flood_subset scenario_series 0)) = Fin (45 / 100)"
    by (simp add: scenario_post_flood) (simp add: scenario_series_def ts_row_def)
  have r: "recovery_rate_of ols_slope (post_flood_subset scenario_series 0) 0 = Inr (Fin (1 / 600))"
    by (simp add: scenario_post_flood scenario_rate)
  note inst = recovery_percentage_clamped [OF n, of ols_slope]
  obtain d where d: "calculate_recovery_metrics ols_slope scenario_series 0 = Inr d"
    using inst [THEN conjunct1, THEN spec, THEN mp, OF r] by blast
  note at_d = inst [THEN conjunct2, THEN conjunct1, THEN spec, THEN mp, OF d]
  have c: "map_of d ''current_ndvi'' = Some (PyFloat (Fin (45 / 100)))"
    using at_d [THEN conjunct1] unfolding l .
  obtain pct where pct: "map_of d ''recovery_percentage'' = Some (PyFloat pct)"
      "\<forall>c. mean_ndvi (last (post_flood_subset scenario_series 0)) = Fin c \<longrightarrow>
          pct = Fin (min 100 (100 * c / (6 / 10)))"
    using at_d [THEN conjunct2, THEN conjunct2] by blast
  have "pct = Fin (min 100 (100 * (45 / 100) / (6 / 10)))"
    using pct(2) l by blast
  then have "pct = Fin 75" by simp
  with pct(1) have p: "map_of d ''recovery_percentage'' = Some (PyFloat (Fin 75))" by simp
  have a: "\<exists>d. calculate_recovery_metrics ols_slope scenario_series 0 = Inr d \<and>
        map_of d ''current_ndvi'' = Some (PyFloat (Fin (45 / 100))) \<and>
        map_of d ''recovery_percentage'' = Some (PyFloat (Fin 75))"
    using d c p by blast
  let ?ts = "[ts_row 0 (3 / 10), ts_row 30 (7 / 10)]"
  have n2: "post_flood_subset ?ts 86400000000 \<noteq> []"
    by (simp add: single_post_flood)
  have r2: "recovery_rate_of ols_slope (post_flood_subset ?ts 86400000000) 86400000000 = Inr (Fin 0)"
    by (simp add: single_post_flood recovery_rate_of_def)
  have l2: "mean_ndvi (last (post_flood_subset ?ts 86400000000)) = Fin (7 / 10)"
    by (simp add: single_post_flood) (simp add: ts_row_def)
  note inst2 = recovery_percentage_clamped [OF n2, of ols_slope]
  obtain d2 where d2: "calculate_recovery_metrics ols_slope ?ts 86400000000 = Inr d2"
    using inst2 [THEN conjunct1, THEN spec, THEN mp, OF r2] by blast
  note at_d2 = inst2 [THEN conjunct2, THEN conjunct1, THEN spec, THEN mp, OF d2]
  have c2: "map_of d2 ''current_ndvi'' = Some (PyFloat (Fin (7 / 10)))"
    using at_d2 [THEN conjunct1] unfolding l2 .
  obtain pct2 where pct2: "map_of d2 ''recovery_percentage'' = Some (PyFloat pct2)"
      "\<forall>c. mean_ndvi (last (post_flood_subset ?ts 86400000000)) = Fin c \<longrightarrow>
          pct2 = Fin (min 100 (100 * c / (6 / 10)))"
    using at_d2 [THEN conjunct2, THEN conjunct2] by blast
  have "pct2 = Fin (min 100 (100 * (7 / 10) / (6 / 10)))"
    using pct2(2) l2 by blast
  then have "pct2 = Fin 100" by simp
  with pct2(1) have p2: "map_of d2 ''recovery_percentage'' = Some (PyFloat (Fin 100))" by simp
  have b: "\<exists>d. calculate_recovery_metrics ols_slope ?ts 86400000000 = Inr d \<and>
        map_of d ''current_ndvi'' = Some (PyFloat (Fin (7 / 10))) \<and>
        map_of d ''recovery_percentage'' = Some (PyFloat (Fin 100))"
    using d2 c2 p2 by blast
  show ?thesis
    using n a n2 b by (intro conjI)
qed

text \<open>
  C8. When the post-flood subset has exactly one record, the function returns
  \<open>recovery_rate = 0\<close> and \<open>time_to_recovery_days = None\<close>, whatever the regression
  would do: it is not called.
\<close>

theorem single_record_rate_zero:
  assumes "length (post_flood_subset ts fd) = 1"
  shows "\<exists>d. calculate_recovery_metrics polyfit ts fd = Inr d \<and>
             map_of d ''recovery_rate'' = Some (PyFloat (Fin 0)) \<and>
             map_of d ''time_to_recovery_days'' = Some PyNone"
proof -
  have n: "post_flood_subset ts fd \<noteq> []"
    using assms by auto
  have r: "recovery_rate_of polyfit (post_flood_subset ts fd) fd = Inr (Fin 0)"
    using assms by (simp add: recovery_rate_of_def)
  show ?thesis
    by (simp add: calculate_recovery_metrics_nonempty [OF n r] fl_gt_def)
qed

theorem single_record_rate_zero_witness:
  "length (post_flood_subset [ts_row 0 (3 / 10), ts_row 30 (7 / 10)] 86400000000) = 1 \<and>
   (\<exists>d. calculate_recovery_metrics ols_slope [ts_row 0 (3 / 10), ts_row 30 (7 / 10)] 86400000000
           = Inr d \<and>
        map_of d ''recovery_rate'' = Some (PyFloat (Fin 0)) \<and>
        map_of d ''time_to_recovery_days'' = Some PyNone)"
proof -
  have n: "length (post_flood_subset [ts_row 0 (3 / 10), ts_row 30 (7 / 10)] 86400000000) = 1"
    by (simp add: single_post_flood)
  show ?thesis
    using single_record_rate_zero [OF n, of ols_slope] n by blast
qed

section \<open>Properties of the time-series aggregator\<close>

lemma time_series_loop_rows:
  assumes "k + length ds \<le> length ndvi"
  shows "time_series_loop ndvi ndwi radar (List.enumerate k ds) acc =
         acc @ map (\<lambda>(i, d). time_series_row ndvi ndwi radar i d) (List.enumerate k ds)"
  using assms
proof (induction ds arbitrary: k acc)
  case Nil
  then show ?case by simp
next
  case (Cons d ds)
  then show ?case by (simp add: enumerate_simps)
qed

lemma enumerate_rows_date:
  "map date (map (\<lambda>(i, d). time_series_row ndvi ndwi radar i d) (List.enumerate k ds)) = ds"
  by (induction ds arbitrary: k) (simp_all add: time_series_row_def Let_def)

lemma enumerate_rows_nth:
  assumes "i < length ds"
  shows "map (\<lambda>(i, d). time_series_row ndvi ndwi radar i d) (List.enumerate 0 ds) ! i =
         time_series_row ndvi ndwi radar i (ds ! i)"
  using assms by (simp add: nth_enumerate_eq)

text \<open>
  C5. When the date list and the per-date lists have the same length,
  \<open>process_time_series\<close> raises if and only if there is no acquisition; otherwise it
  returns one row per acquisition, in input order, each with the statistics of its own
  arrays. There is no partial result.
\<close>

theorem process_time_series_total:
  assumes "length ndvi_series = length dates"
    and "length ndwi_series = length dates"
    and "length radar_series = length dates"
  shows "((\<exists>err. process_time_series dates ndvi_series ndwi_series radar_series = Inl err)
            \<longleftrightarrow> dates = [])
    \<and> (dates \<noteq> [] \<longrightarrow>
        (\<exists>rs. process_time_series dates ndvi_series ndwi_series radar_series = Inr rs \<and>
              length rs = length dates \<and>
              map date rs = dates \<and>
              (\<forall>i < length dates.
                 rs ! i = \<lparr>date = dates ! i,
                           mean_ndvi = nanmean (ndvi_series ! i),
                           std_ndvi = nanstd (ndvi_series ! i),
                           mean_ndwi = Some (nanmean (ndwi_series ! i)),
                           mean_vv_backscatter = Some (nanmean (vv_db (radar_series ! i)))\<rparr>)))"
proof (cases "dates = []")
  case True
  then show ?thesis by (simp add: process_time_series_def)
next
  case False
  let ?rs = "map (\<lambda>(i, d). time_series_row ndvi_series ndwi_series radar_series i d)
               (List.enumerate 0 dates)"
  have ne: "ndvi_series \<noteq> []"
    using False assms(1) by auto
  have run: "process_time_series dates ndvi_series ndwi_series radar_series = Inr ?rs"
    using False ne assms(1)
    by (simp add: process_time_series_def time_series_loop_rows)
  have len: "length ?rs = length dates"
    by simp
  have dts: "map date ?rs = dates"
    by (rule enumerate_rows_date)
  have row: "?rs ! i = \<lparr>date = dates ! i,
                           mean_ndvi = nanmean (ndvi_series ! i),
                           std_ndvi = nanstd (ndvi_series ! i),
                           mean_ndwi = Some (nanmean (ndwi_series ! i)),
                           mean_vv_backscatter = Some (nanmean (vv_db (radar_series ! i)))\<rparr>"
    if "i < length dates" for i
    unfolding enumerate_rows_nth [OF that]
    using that assms by (simp add: time_series_row_def Let_def)
  show ?thesis
    using False run len dts row by auto
qed



lemma conj_imp_elim: "A \<and> (B \<longrightarrow> C) \<Longrightarrow> B \<Longrightarrow> C"
  by blast

lemma ex_conj3_of_conj4: "\<exists>x. P x \<and> Q x \<and> R x \<and> S x \<Longrightarrow> \<exists>x. P x \<and> Q x \<and> R x"
  by blast

theorem process_time_series_total_witness:
  "(\<exists>err. process_time_series [] [] [] [] = Inl err) \<and>
   length [const_grid 1 1 (Fin (3 / 10)), const_grid 1 1 NaN] = length [0, 2592000000000 :: int] \<and>
   (\<exists>rs. process_time_series [0, 2592000000000]
            [const_grid 1 1 (Fin (3 / 10)), const_grid 1 1 NaN]
            [const_grid 1 1 (Fin (1 / 10)), const_grid 1 1 (Fin (2 / 10))]
            [example_radar, example_radar] = Inr rs \<and>
         length rs = length [0, 2592000000000 :: int] \<and> map date rs = [0, 2592000000000])"
proof (intro conjI)
  have e: "length ([] :: fl grid list) = length ([] :: int list)"
      "length ([] :: RadarMetrics list) = length ([] :: int list)"
    by simp_all
  show "\<exists>err. process_time_series [] [] [] [] = Inl err"
    using conjunct1 [OF process_time_series_total [OF e(1) e(1) e(2)]] by blast
  let ?dates = "[0, 2592000000000] :: int list"
  let ?ndvi = "[const_grid 1 1 (Fin (3 / 10)), const_grid 1 1 NaN]"
  let ?ndwi = "[const_grid 1 1 (Fin (1 / 10)), const_grid 1 1 (Fin (2 / 10))]"
  let ?radar = "[example_radar, example_radar]"
  have l: "length ?ndvi = length ?dates" "length ?ndwi = length ?dates"
      "length ?radar = length ?dates"
    by simp_all
  have ne: "?dates \<noteq> []"
    by simp
  show "length ?ndvi = length ?dates"
    by (rule l(1))
  show "\<exists>rs. process_time_series ?dates ?ndvi ?ndwi ?radar = Inr rs \<and>
         length rs = length ?dates \<and> map date rs = ?dates"
    by (rule ex_conj3_of_conj4 [OF conj_imp_elim [OF process_time_series_total [OF l] ne]])
qed

section \<open>Properties of the index calculator\<close>






text \<open>
  What the \<open>np.where\<close> of line 114 is for: with \<open>nir = 0.5\<close> and \<open>red = -0.5\<close> the
  sum is 0 and the difference is 1, and the division without the replacement would be
  an infinity, not not-a-number.
\<close>

lemma unguarded_division_infinite:
  "fl_div (fl_sub (Fin (1 / 2)) (Fin (- (1 / 2)))) (fl_add (Fin (1 / 2)) (Fin (- (1 / 2)))) = PInf"
  by simp



section \<open>Properties of the event-time scan\<close>

lemma scan_loop_Cons:
  "scan_loop thr m s (f # fs) (t, e) =
   scan_loop thr m (Suc s) fs
     ((\<lambda>q. if fl_ge (f q) (thr q) \<and> e q = 0 \<and> m q then s + 1 else t q),
      (\<lambda>q. if fl_ge (f q) (thr q) \<and> e q = 0 \<and> m q then 1 else e q))"
  by (simp add: Let_def cong: if_cong)

lemma scan_loop_keep:
  assumes "\<not> m p \<or> e p \<noteq> 0 \<or> (\<forall>f \<in> set fs. \<not> fl_ge (f p) (thr p))"
  shows "fst (scan_loop thr m s fs (t, e)) p = t p \<and> snd (scan_loop thr m s fs (t, e)) p = e p"
  using assms
proof (induction fs arbitrary: s t e)
  case Nil
  then show ?case by simp
next
  case (Cons f fs)
  let ?t = "\<lambda>q. if fl_ge (f q) (thr q) \<and> e q = 0 \<and> m q then s + 1 else t q"
  let ?e = "\<lambda>q. if fl_ge (f q) (thr q) \<and> e q = 0 \<and> m q then (1::int) else e q"
  have off: "\<not> (fl_ge (f p) (thr p) \<and> e p = 0 \<and> m p)"
    using Cons.prems by auto
  have same: "?t p = t p" "?e p = e p"
    by (simp_all only: off if_False)
  have "\<not> m p \<or> ?e p \<noteq> 0 \<or> (\<forall>g \<in> set fs. \<not> fl_ge (g p) (thr p))"
    using Cons.prems same(2) by auto
  then have "fst (scan_loop thr m (Suc s) fs (?t, ?e)) p = ?t p \<and>
             snd (scan_loop thr m (Suc s) fs (?t, ?e)) p = ?e p"
    by (rule Cons.IH)
  then show ?case
    unfolding scan_loop_Cons same .
qed

lemma scan_loop_append:
  "scan_loop thr m s (fs @ gs) te = scan_loop thr m (s + length fs) gs (scan_loop thr m s fs te)"
  by (induction fs arbitrary: s te) simp_all

lemma scan_loop_cross:
  assumes "m p" and "e p = 0" and "fl_ge (f p) (thr p)"
  shows "fst (scan_loop thr m s (f # fs) (t, e)) p = s + 1 \<and>
         snd (scan_loop thr m s (f # fs) (t, e)) p = 1"
proof -
  let ?t = "\<lambda>q. if fl_ge (f q) (thr q) \<and> e q = 0 \<and> m q then s + 1 else t q"
  let ?e = "\<lambda>q. if fl_ge (f q) (thr q) \<and> e q = 0 \<and> m q then (1::int) else e q"
  have on: "fl_ge (f p) (thr p) \<and> e p = 0 \<and> m p"
    using assms by simp
  have now: "?t p = s + 1" "?e p = 1"
    using on by simp_all
  have "\<not> m p \<or> ?e p \<noteq> 0 \<or> (\<forall>g \<in> set fs. \<not> fl_ge (g p) (thr p))"
    unfolding now by simp
  then have "fst (scan_loop thr m (Suc s) fs (?t, ?e)) p = ?t p \<and>
             snd (scan_loop thr m (Suc s) fs (?t, ?e)) p = ?e p"
    by (rule scan_loop_keep)
  then show ?thesis
    unfolding scan_loop_Cons now .
qed

lemma scan_loop_first_crossing:
  assumes "m p" and "e p = 0" and "k < length fs" and "fl_ge ((fs ! k) p) (thr p)"
    and "\<forall>j < k. \<not> fl_ge ((fs ! j) p) (thr p)"
  shows "fst (scan_loop thr m s fs (t, e)) p = s + k + 1 \<and>
         snd (scan_loop thr m s fs (t, e)) p = 1"
proof -
  have split: "take k fs @ (fs ! k) # drop (Suc k) fs = fs"
    using assms(3) by (simp add: id_take_nth_drop [symmetric])
  have before: "\<forall>f \<in> set (take k fs). \<not> fl_ge (f p) (thr p)"
    using assms(3,5) by (auto simp: in_set_conv_nth)
  obtain t' e' where mid: "scan_loop thr m s (take k fs) (t, e) = (t', e')"
    by (cases "scan_loop thr m s (take k fs) (t, e)")
  have "\<not> m p \<or> e p \<noteq> 0 \<or> (\<forall>f \<in> set (take k fs). \<not> fl_ge (f p) (thr p))"
    using before by simp
  then have "fst (scan_loop thr m s (take k fs) (t, e)) p = t p \<and>
             snd (scan_loop thr m s (take k fs) (t, e)) p = e p"
    by (rule scan_loop_keep)
  then have zero: "e' p = 0"
    using assms(2) by (simp add: mid)
  have len: "length (take k fs) = k"
    using assms(3) by simp
  have "scan_loop thr m s (take k fs @ (fs ! k) # drop (Suc k) fs) (t, e) =
        scan_loop thr m (s + k) ((fs ! k) # drop (Suc k) fs) (t', e')"
    unfolding scan_loop_append len mid ..
  then have eq: "scan_loop thr m s fs (t, e) =
        scan_loop thr m (s + k) ((fs ! k) # drop (Suc k) fs) (t', e')"
    unfolding split .
  have "fst (scan_loop thr m (s + k) ((fs ! k) # drop (Suc k) fs) (t', e')) p = s + k + 1 \<and>
        snd (scan_loop thr m (s + k) ((fs ! k) # drop (Suc k) fs) (t', e')) p = 1"
    using assms(1) zero assms(4) by (rule scan_loop_cross)
  then show ?thesis
    unfolding eq .
qed

lemma scan_loop_event:
  assumes "m p" and "e p = 0"
  shows "snd (scan_loop thr m s fs (t, e)) p =
         (if \<exists>f \<in> set fs. fl_ge (f p) (thr p) then 1 else 0)"
proof (cases "\<exists>f \<in> set fs. fl_ge (f p) (thr p)")
  case False
  then have "\<not> m p \<or> e p \<noteq> 0 \<or> (\<forall>f \<in> set fs. \<not> fl_ge (f p) (thr p))"
    by simp
  then have "fst (scan_loop thr m s fs (t, e)) p = t p \<and>
             snd (scan_loop thr m s fs (t, e)) p = e p"
    by (rule scan_loop_keep)
  then show ?thesis
    using False assms(2) by simp
next
  case True
  then obtain i where i: "i < length fs \<and> fl_ge ((fs ! i) p) (thr p)"
    by (auto simp: in_set_conv_nth)
  define k where "k = (LEAST i. i < length fs \<and> fl_ge ((fs ! i) p) (thr p))"
  have k: "k < length fs \<and> fl_ge ((fs ! k) p) (thr p)"
    unfolding k_def using i by (rule LeastI)
  have least: "\<forall>j < k. \<not> fl_ge ((fs ! j) p) (thr p)"
  proof (intro allI impI notI)
    fix j assume "j < k" "fl_ge ((fs ! j) p) (thr p)"
    then have "j < length fs \<and> fl_ge ((fs ! j) p) (thr p)" using k by simp
    then have "k \<le> j" unfolding k_def by (rule Least_le)
    with \<open>j < k\<close> show False by simp
  qed
  have "fst (scan_loop thr m s fs (t, e)) p = s + k + 1 \<and>
        snd (scan_loop thr m s fs (t, e)) p = 1"
    using assms conjunct1 [OF k] conjunct2 [OF k] least by (rule scan_loop_first_crossing)
  then show ?thesis
    using True by simp
qed

lemma run_survival_analysis_map:
  "\<exists>r kmf'. run_survival_analysis (Some kmf) S b = (Some r, Some kmf') \<and>
     recovery_map r = fst (event_time_scan S (recovery_threshold_of b))"
  by (simp add: run_survival_analysis_def survival_at_threshold_def Let_def)

lemma event_time_scan_full:
  "event_time_scan S thr = event_time_scan_upto (length (frames S)) S thr"
  by (simp add: event_time_scan_def event_time_scan_upto_def)

lemma scan_upto_first_crossing:
  assumes "flood_mask (height S) (width S) p"
    and "1 \<le> k" and "k \<le> n" and "n \<le> length (frames S)"
    and "fl_ge ((frames S ! (k - 1)) p) (thr p)"
    and "\<forall>j < k - 1. \<not> fl_ge ((frames S ! j) p) (thr p)"
  shows "fst (event_time_scan_upto n S thr) p = k \<and> snd (event_time_scan_upto n S thr) p = 1"
proof -
  have lt: "k - 1 < n" using assms(2,3) by linarith
  have a: "k - 1 < length (take n (frames S))" using lt assms(4) by simp
  have b: "fl_ge ((take n (frames S) ! (k - 1)) p) (thr p)" using assms(5) lt by simp
  have c: "\<forall>j < k - 1. \<not> fl_ge ((take n (frames S) ! j) p) (thr p)" using assms(6) lt by simp
  have z: "(\<lambda>p. 0 :: int) p = 0" by simp
  have "fst (scan_loop thr (flood_mask (height S) (width S)) 0 (take n (frames S))
               ((\<lambda>p. length (frames S)), (\<lambda>p. 0))) p = 0 + (k - 1) + 1 \<and>
        snd (scan_loop thr (flood_mask (height S) (width S)) 0 (take n (frames S))
               ((\<lambda>p. length (frames S)), (\<lambda>p. 0))) p = 1"
    using assms(1) z a b c by (rule scan_loop_first_crossing)
  then show ?thesis using assms(2) by (simp add: event_time_scan_upto_def)
qed

lemma scan_upto_keep:
  assumes "\<not> flood_mask (height S) (width S) p \<or>
           (\<forall>f \<in> set (take n (frames S)). \<not> fl_ge (f p) (thr p))"
  shows "fst (event_time_scan_upto n S thr) p = length (frames S) \<and>
         snd (event_time_scan_upto n S thr) p = 0"
proof -
  have "\<not> flood_mask (height S) (width S) p \<or> (\<lambda>p. 0 :: int) p \<noteq> 0 \<or>
           (\<forall>f \<in> set (take n (frames S)). \<not> fl_ge (f p) (thr p))"
    using assms by simp
  then have "fst (scan_loop thr (flood_mask (height S) (width S)) 0 (take n (frames S))
               ((\<lambda>p. length (frames S)), (\<lambda>p. 0))) p = (\<lambda>p. length (frames S)) p \<and>
        snd (scan_loop thr (flood_mask (height S) (width S)) 0 (take n (frames S))
               ((\<lambda>p. length (frames S)), (\<lambda>p. 0))) p = (\<lambda>p. 0 :: int) p"
    by (rule scan_loop_keep)
  then show ?thesis by (simp add: event_time_scan_upto_def)
qed

text \<open>
  C1. For a pixel inside the flood mask: if step \<open>k\<close> (counted from 1) is the first
  step at which its NDVI value is at least the recovery threshold, then after every
  step \<open>n\<close> from \<open>k\<close> on the scan holds \<open>time_to_event = k\<close> and
  \<open>event_observed = 1\<close> for it, whatever the later values are, and the returned
  recovery map holds \<open>k\<close>; if no step reaches the threshold, the pixel ends with
  \<open>time_to_event\<close> equal to the number of time steps and \<open>event_observed = 0\<close>.
  The event flags live in \<open>e_matrix\<close>; the returned \<open>recovery_map\<close> is \<open>t_matrix\<close>.
\<close>

theorem event_time_frozen:
  assumes "flood_mask (height S) (width S) p"
  shows "(\<forall>k. 1 \<le> k \<and> k \<le> length (frames S)
              \<and> fl_ge ((frames S ! (k - 1)) p) (recovery_threshold_of b p)
              \<and> (\<forall>j < k - 1. \<not> fl_ge ((frames S ! j) p) (recovery_threshold_of b p)) \<longrightarrow>
            (\<forall>n. k \<le> n \<and> n \<le> length (frames S) \<longrightarrow>
               fst (event_time_scan_upto n S (recovery_threshold_of b)) p = k \<and>
               snd (event_time_scan_upto n S (recovery_threshold_of b)) p = 1) \<and>
            snd (event_time_scan S (recovery_threshold_of b)) p = 1 \<and>
            (\<exists>r kmf'. run_survival_analysis (Some kmf) S b = (Some r, Some kmf') \<and>
               recovery_map r p = k))
       \<and> ((\<forall>j < length (frames S). \<not> fl_ge ((frames S ! j) p) (recovery_threshold_of b p)) \<longrightarrow>
            snd (event_time_scan S (recovery_threshold_of b)) p = 0 \<and>
            (\<exists>r kmf'. run_survival_analysis (Some kmf) S b = (Some r, Some kmf') \<and>
               recovery_map r p = length (frames S)))"
proof -
  let ?thr = "recovery_threshold_of b"
  obtain r kmf' where r: "run_survival_analysis (Some kmf) S b = (Some r, Some kmf')"
      "recovery_map r = fst (event_time_scan S ?thr)"
    using run_survival_analysis_map by blast
  have crossing: "(\<forall>n. k \<le> n \<and> n \<le> length (frames S) \<longrightarrow>
               fst (event_time_scan_upto n S ?thr) p = k \<and>
               snd (event_time_scan_upto n S ?thr) p = 1) \<and>
            snd (event_time_scan S ?thr) p = 1 \<and>
            (\<exists>r kmf'. run_survival_analysis (Some kmf) S b = (Some r, Some kmf') \<and>
               recovery_map r p = k)"
    if k: "1 \<le> k \<and> k \<le> length (frames S)
              \<and> fl_ge ((frames S ! (k - 1)) p) (?thr p)
              \<and> (\<forall>j < k - 1. \<not> fl_ge ((frames S ! j) p) (?thr p))" for k
  proof -
    have upto: "fst (event_time_scan_upto n S ?thr) p = k \<and>
               snd (event_time_scan_upto n S ?thr) p = 1"
      if "k \<le> n \<and> n \<le> length (frames S)" for n
      using scan_upto_first_crossing [of S p k n ?thr] assms k that by simp
    have final: "fst (event_time_scan S ?thr) p = k \<and> snd (event_time_scan S ?thr) p = 1"
      using upto [of "length (frames S)"] k by (simp add: event_time_scan_full)
    have "recovery_map r p = k"
      using final r(2) by simp
    with r(1) upto final show ?thesis by blast
  qed
  have censored: "snd (event_time_scan S ?thr) p = 0 \<and>
            (\<exists>r kmf'. run_survival_analysis (Some kmf) S b = (Some r, Some kmf') \<and>
               recovery_map r p = length (frames S))"
    if never: "\<forall>j < length (frames S). \<not> fl_ge ((frames S ! j) p) (?thr p)"
  proof -
    have "\<forall>f \<in> set (take (length (frames S)) (frames S)). \<not> fl_ge (f p) (?thr p)"
      using never by (auto simp: in_set_conv_nth)
    then have final: "fst (event_time_scan S ?thr) p = length (frames S) \<and>
                      snd (event_time_scan S ?thr) p = 0"
      using scan_upto_keep [of S p "length (frames S)" ?thr]
      by (simp add: event_time_scan_full)
    have "recovery_map r p = length (frames S)"
      using final r(2) by simp
    with r(1) final show ?thesis by blast
  qed
  show ?thesis
    using crossing censored by blast
qed

text \<open>
  C10. A pixel outside the flood mask keeps \<open>time_to_event\<close> equal to the number
  of time steps and \<open>event_observed = 0\<close> after every step of the scan and in the
  returned recovery map, whatever its NDVI values are.
\<close>

theorem outside_mask_censored:
  assumes "\<not> flood_mask (height S) (width S) p"
  shows "(\<forall>n \<le> length (frames S).
            fst (event_time_scan_upto n S (recovery_threshold_of b)) p = length (frames S) \<and>
            snd (event_time_scan_upto n S (recovery_threshold_of b)) p = 0)
       \<and> snd (event_time_scan S (recovery_threshold_of b)) p = 0
       \<and> (\<exists>r kmf'. run_survival_analysis (Some kmf) S b = (Some r, Some kmf') \<and>
               recovery_map r p = length (frames S))"
proof -
  let ?thr = "recovery_threshold_of b"
  have upto: "fst (event_time_scan_upto n S ?thr) p = length (frames S) \<and>
            snd (event_time_scan_upto n S ?thr) p = 0" for n
    using scan_upto_keep [of S p n ?thr] assms by simp
  obtain r kmf' where r: "run_survival_analysis (Some kmf) S b = (Some r, Some kmf')"
      "recovery_map r = fst (event_time_scan S ?thr)"
    using run_survival_analysis_map by blast
  have final: "fst (event_time_scan S ?thr) p = length (frames S) \<and>
               snd (event_time_scan S ?thr) p = 0"
    using upto [of "length (frames S)"] by (simp add: event_time_scan_full)
  have "recovery_map r p = length (frames S)"
    using final r(2) by simp
  with r(1) upto final show ?thesis by blast
qed

lemma example_mask: "flood_mask (height example_stack) (width example_stack) (150, 150)"
  by (simp add: example_stack_def flood_mask_def in_grid_def)

lemma example_crossing:
  "1 \<le> (2::nat) \<and> 2 \<le> length (frames example_stack)
     \<and> fl_ge ((frames example_stack ! (2 - 1)) (150, 150))
          (recovery_threshold_of example_baseline (150, 150))
     \<and> (\<forall>j < 2 - 1. \<not> fl_ge ((frames example_stack ! j) (150, 150))
          (recovery_threshold_of example_baseline (150, 150)))"
  by (simp add: example_stack_def example_baseline_def recovery_threshold_of_def fl_ge_def)

lemma example_never:
  "\<forall>j < length (frames example_stack).
     \<not> fl_ge ((frames example_stack ! j) (150, 150)) (recovery_threshold_of high_baseline (150, 150))"
  by (simp add: example_stack_def high_baseline_def recovery_threshold_of_def fl_ge_def
      less_Suc_eq all_conj_distrib)

theorem event_time_frozen_witness:
  "flood_mask (height example_stack) (width example_stack) (150, 150) \<and>
   fl_ge ((frames example_stack ! (2 - 1)) (150, 150))
          (recovery_threshold_of example_baseline (150, 150)) \<and>
   \<not> fl_ge ((frames example_stack ! 3) (150, 150))
          (recovery_threshold_of example_baseline (150, 150)) \<and>
   fst (event_time_scan_upto 4 example_stack (recovery_threshold_of example_baseline)) (150, 150) = 2 \<and>
   snd (event_time_scan_upto 4 example_stack (recovery_threshold_of example_baseline)) (150, 150) = 1 \<and>
   (\<exists>r kmf'. run_survival_analysis (Some example_kmf) example_stack example_baseline
               = (Some r, Some kmf') \<and> recovery_map r (150, 150) = 2) \<and>
   (\<exists>r kmf'. run_survival_analysis (Some example_kmf) example_stack high_baseline
               = (Some r, Some kmf') \<and> recovery_map r (150, 150) = 4)"
proof -
  note crossing = event_time_frozen [OF example_mask, of example_baseline example_kmf,
      THEN conjunct1, rule_format, OF example_crossing]
  note never = event_time_frozen [OF example_mask, of high_baseline example_kmf,
      THEN conjunct2, THEN mp, OF example_never]
  have len: "length (frames example_stack) = 4"
    by (simp add: example_stack_def)
  have n: "(2::nat) \<le> 4 \<and> 4 \<le> length (frames example_stack)"
    by (simp add: len)
  have a: "fst (event_time_scan_upto 4 example_stack (recovery_threshold_of example_baseline))
             (150, 150) = 2 \<and>
           snd (event_time_scan_upto 4 example_stack (recovery_threshold_of example_baseline))
             (150, 150) = 1"
    by (rule crossing [THEN conjunct1, rule_format, OF n])
  have b: "\<exists>r kmf'. run_survival_analysis (Some example_kmf) example_stack example_baseline
               = (Some r, Some kmf') \<and> recovery_map r (150, 150) = 2"
    by (rule crossing [THEN conjunct2, THEN conjunct2])
  have c: "\<exists>r kmf'. run_survival_analysis (Some example_kmf) example_stack high_baseline
               = (Some r, Some kmf') \<and> recovery_map r (150, 150) = 4"
    using never [THEN conjunct2] by (simp only: len)
  have d: "\<not> fl_ge ((frames example_stack ! 3) (150, 150))
          (recovery_threshold_of example_baseline (150, 150))"
    by (simp add: example_stack_def example_baseline_def recovery_threshold_of_def fl_ge_def)
  show ?thesis
    using example_mask example_crossing a b c d by (intro conjI) simp_all
qed

lemma example_outside: "\<not> flood_mask (height example_stack) (width example_stack) (0, 0)"
  by (simp add: flood_mask_def)

theorem outside_mask_censored_witness:
  "\<not> flood_mask (height example_stack) (width example_stack) (0, 0) \<and>
   fl_ge ((frames example_stack ! 1) (0, 0)) (recovery_threshold_of example_baseline (0, 0)) \<and>
   fst (event_time_scan_upto 2 example_stack (recovery_threshold_of example_baseline)) (0, 0) = 4 \<and>
   snd (event_time_scan_upto 2 example_stack (recovery_threshold_of example_baseline)) (0, 0) = 0 \<and>
   (\<exists>r kmf'. run_survival_analysis (Some example_kmf) example_stack example_baseline
               = (Some r, Some kmf') \<and> recovery_map r (0, 0) = 4)"
proof -
  note out = outside_mask_censored [OF example_outside, of example_baseline example_kmf]
  have len: "length (frames example_stack) = 4"
    by (simp add: example_stack_def)
  have n: "(2::nat) \<le> length (frames example_stack)"
    by (simp add: len)
  have a: "fst (event_time_scan_upto 2 example_stack (recovery_threshold_of example_baseline))
             (0, 0) = 4 \<and>
           snd (event_time_scan_upto 2 example_stack (recovery_threshold_of example_baseline))
             (0, 0) = 0"
    using out [THEN conjunct1, rule_format, OF n] by (simp only: len)
  have b: "\<exists>r kmf'. run_survival_analysis (Some example_kmf) example_stack example_baseline
               = (Some r, Some kmf') \<and> recovery_map r (0, 0) = 4"
    using out [THEN conjunct2, THEN conjunct2] by (simp only: len)
  have d: "fl_ge ((frames example_stack ! 1) (0, 0)) (recovery_threshold_of example_baseline (0, 0))"
    by (simp add: example_stack_def example_baseline_def recovery_threshold_of_def fl_ge_def)
  show ?thesis
    using example_outside a b d by (intro conjI) simp_all
qed

section \<open>Properties of the flood mask\<close>

lemma filter_product:
  "filter (\<lambda>p. A (fst p) \<and> B (snd p)) (List.product xs ys) =
   List.product (filter A xs) (filter B ys)"
proof (induction xs)
  case Nil
  then show ?case by simp
next
  case (Cons x xs)
  have "filter (\<lambda>p. A (fst p) \<and> B (snd p)) (map (Pair x) ys) =
        (if A x then map (Pair x) (filter B ys) else [])"
    by (induction ys) simp_all
  with Cons show ?case by simp
qed

lemma filter_upt_range:
  "filter (\<lambda>x. x < n \<and> a \<le> x \<and> x < b) [0..<n] = [a..<min b n]"
proof (induction n)
  case 0
  then show ?case by simp
next
  case (Suc n)
  have "filter (\<lambda>x. x < Suc n \<and> a \<le> x \<and> x < b) [0..<n] =
        filter (\<lambda>x. x < n \<and> a \<le> x \<and> x < b) [0..<n]"
    by (rule filter_cong) auto
  with Suc have prev: "filter (\<lambda>x. x < Suc n \<and> a \<le> x \<and> x < b) [0..<n] = [a..<min b n]"
    by simp
  show ?case
  proof (cases "a \<le> n \<and> n < b")
    case True
    then have "min b n = n" "min b (Suc n) = Suc n" by simp_all
    then show ?thesis using prev True by simp
  next
    case False
    then have "[a..<min b (Suc n)] = [a..<min b n]"
      by (cases "n < a") (auto simp: min_def)
    then show ?thesis using prev False by auto
  qed
qed

lemma flooded_pixels_upt:
  "flooded_pixels h w = List.product [150..<min 350 h] [150..<min 350 w]"
proof -
  have "flood_mask h w =
        (\<lambda>p. (fst p < h \<and> 150 \<le> fst p \<and> fst p < 350) \<and> (snd p < w \<and> 150 \<le> snd p \<and> snd p < 350))"
    by (auto simp: flood_mask_def in_grid_def fun_eq_iff)
  then have "flooded_pixels h w =
        List.product (filter (\<lambda>r. r < h \<and> 150 \<le> r \<and> r < 350) [0..<h])
                     (filter (\<lambda>c. c < w \<and> 150 \<le> c \<and> c < 350) [0..<w])"
    unfolding flooded_pixels_def pixels_def
    using filter_product [of "\<lambda>r. r < h \<and> 150 \<le> r \<and> r < 350"
                             "\<lambda>c. c < w \<and> 150 \<le> c \<and> c < 350" "[0..<h]" "[0..<w]"]
    by simp
  then show ?thesis by (simp only: filter_upt_range)
qed

lemma set_flooded_pixels: "set (flooded_pixels h w) = {p. flood_mask h w p}"
  by (auto simp: flooded_pixels_def pixels_def flood_mask_def in_grid_def)

lemma distinct_flooded_pixels: "distinct (flooded_pixels h w)"
  by (simp add: flooded_pixels_def pixels_def distinct_product)

lemma card_flood_mask: "card {p. flood_mask h w p} = length (flooded_pixels h w)"
  using distinct_card [OF distinct_flooded_pixels, of h w] by (simp add: set_flooded_pixels)

lemma card_flood_mask_filter:
  "card {p. flood_mask h w p \<and> Q p} = length (filter Q (flooded_pixels h w))"
proof -
  have "distinct (filter Q (flooded_pixels h w))"
    using distinct_flooded_pixels by simp
  then have "card (set (filter Q (flooded_pixels h w))) = length (filter Q (flooded_pixels h w))"
    by (rule distinct_card)
  moreover have "set (filter Q (flooded_pixels h w)) = {p. flood_mask h w p \<and> Q p}"
    by (auto simp: set_flooded_pixels)
  ultimately show ?thesis by simp
qed

lemma flooded_pixels_empty: "flooded_pixels h w = [] \<longleftrightarrow> \<not> (\<exists>p. flood_mask h w p)"
  using set_flooded_pixels [of h w] by (metis (mono_tags, lifting) empty_Collect_eq set_empty)

section \<open>Properties of the confidence score\<close>

lemma sum_flags:
  assumes "\<forall>p \<in> set ps. e p = (0::int) \<or> e p = 1"
  shows "sum_list (map e ps) = int (length (filter (\<lambda>p. e p = 1) ps))"
  using assms by (induction ps) auto

lemma event_scan_flag:
  assumes "flood_mask (height S) (width S) p"
  shows "snd (event_time_scan S thr) p = (if \<exists>f \<in> set (frames S). fl_ge (f p) (thr p) then 1 else 0)"
proof -
  have z: "(\<lambda>p. 0 :: int) p = 0" by simp
  show ?thesis
    unfolding event_time_scan_def using assms z by (rule scan_loop_event)
qed

lemma survival_at_threshold_empty:
  assumes "flooded_pixels (height S) (width S) = []"
  shows "survival_at_threshold kmf S thr =
         (\<lparr>median_recovery_time = 0, confidence_score = Fin 0,
           recovery_map = fst (event_time_scan S thr)\<rparr>, kmf)"
  using assms by (simp add: survival_at_threshold_def Let_def)

lemma survival_at_threshold_nonempty:
  assumes "flooded_pixels (height S) (width S) \<noteq> []"
  shows "survival_at_threshold kmf S thr =
         (\<lparr>median_recovery_time =
             median_survival_time
               (kmf_fit kmf (map (fst (event_time_scan S thr)) (flooded_pixels (height S) (width S)))
                            (map (snd (event_time_scan S thr)) (flooded_pixels (height S) (width S)))),
           confidence_score =
             fl_mul (np_mean_int (map (snd (event_time_scan S thr))
                                   (flooded_pixels (height S) (width S)))) (Fin 100),
           recovery_map = fst (event_time_scan S thr)\<rparr>,
          kmf_fit kmf (map (fst (event_time_scan S thr)) (flooded_pixels (height S) (width S)))
                      (map (snd (event_time_scan S thr)) (flooded_pixels (height S) (width S))))"
  using assms by (simp add: survival_at_threshold_def Let_def)

lemma confidence_value:
  assumes "flooded_pixels (height S) (width S) \<noteq> []"
  shows "fl_mul (np_mean_int (map (snd (event_time_scan S thr))
                                   (flooded_pixels (height S) (width S)))) (Fin 100) =
         Fin (100 * real (card {p. flood_mask (height S) (width S) p
                                   \<and> snd (event_time_scan S thr) p = 1})
                / real (card {p. flood_mask (height S) (width S) p}))"
proof -
  let ?fp = "flooded_pixels (height S) (width S)"
  let ?e = "snd (event_time_scan S thr)"
  have flags: "\<forall>p \<in> set ?fp. ?e p = 0 \<or> ?e p = 1"
    using event_scan_flag [of S _ thr] by (auto simp: set_flooded_pixels)
  have "sum_list (map ?e ?fp) = int (length (filter (\<lambda>p. ?e p = 1) ?fp))"
    using flags by (rule sum_flags)
  then have "np_mean_int (map ?e ?fp) =
             Fin (real (length (filter (\<lambda>p. ?e p = 1) ?fp)) / real (length ?fp))"
    using assms by (simp add: np_mean_int_def)
  then show ?thesis
    by (simp add: card_flood_mask card_flood_mask_filter)
qed

text \<open>
  C7. With the fitter present the method returns a result. If at least one pixel lies
  inside the flood mask, \<open>confidence_score\<close> is 100 times the number of masked pixels
  with an observed event divided by the number of masked pixels, and the fit is called
  once. If no pixel lies inside the mask, \<open>median_recovery_time\<close> is 0,
  \<open>confidence_score\<close> is 0 and the fitter is unchanged: the fit is not called.
\<close>

theorem confidence_score_fraction:
  "\<exists>r kmf'. run_survival_analysis (Some kmf) S b = (Some r, Some kmf') \<and>
     ((\<exists>p. flood_mask (height S) (width S) p) \<longrightarrow>
        confidence_score r =
          Fin (100 * real (card {p. flood_mask (height S) (width S) p
                                   \<and> snd (event_time_scan S (recovery_threshold_of b)) p = 1})
                 / real (card {p. flood_mask (height S) (width S) p}))
        \<and> length (fit_calls kmf') = length (fit_calls kmf) + 1) \<and>
     (\<not> (\<exists>p. flood_mask (height S) (width S) p) \<longrightarrow>
        median_recovery_time r = 0 \<and> confidence_score r = Fin 0 \<and> kmf' = kmf)"
proof (cases "flooded_pixels (height S) (width S) = []")
  case True
  then have "\<not> (\<exists>p. flood_mask (height S) (width S) p)"
    using flooded_pixels_empty [of "height S" "width S"] by blast
  then show ?thesis
    using True
    by (simp add: run_survival_analysis_def survival_at_threshold_empty)
next
  case False
  then have "\<exists>p. flood_mask (height S) (width S) p"
    using flooded_pixels_empty [of "height S" "width S"] by blast
  then show ?thesis
    using False
    by (simp add: run_survival_analysis_def survival_at_threshold_nonempty Let_def
        confidence_value kmf_fit_def)
qed

lemma example_flags:
  assumes "flood_mask (height example_stack) (width example_stack) p"
  shows "snd (event_time_scan example_stack (recovery_threshold_of example_baseline)) p = 1"
  unfolding event_scan_flag [OF assms]
  by (simp add: example_stack_def example_baseline_def recovery_threshold_of_def fl_ge_def)

lemma example_mask_card: "card {p. flood_mask (height example_stack) (width example_stack) p} = 4"
  by (simp add: card_flood_mask flooded_pixels_upt example_stack_def)

theorem confidence_score_fraction_witness:
  "(\<exists>p. flood_mask (height example_stack) (width example_stack) p) \<and>
   \<not> (\<exists>p. flood_mask (height small_stack) (width small_stack) p) \<and>
   (\<exists>r kmf'. run_survival_analysis (Some example_kmf) example_stack example_baseline
                = (Some r, Some kmf') \<and> confidence_score r = Fin 100) \<and>
   (\<exists>r kmf'. run_survival_analysis (Some example_kmf) small_stack example_baseline
                = (Some r, Some kmf') \<and>
              median_recovery_time r = 0 \<and> confidence_score r = Fin 0 \<and> kmf' = example_kmf)"
proof (intro conjI)
  show m: "\<exists>p. flood_mask (height example_stack) (width example_stack) p"
    using example_mask by blast
  show n: "\<not> (\<exists>p. flood_mask (height small_stack) (width small_stack) p)"
    by (simp add: small_stack_def flood_mask_def in_grid_def)
  obtain r kmf' where r:
      "run_survival_analysis (Some example_kmf) example_stack example_baseline = (Some r, Some kmf')"
      "(\<exists>p. flood_mask (height example_stack) (width example_stack) p) \<longrightarrow>
        confidence_score r =
          Fin (100 * real (card {p. flood_mask (height example_stack) (width example_stack) p
             \<and> snd (event_time_scan example_stack (recovery_threshold_of example_baseline)) p = 1})
                 / real (card {p. flood_mask (height example_stack) (width example_stack) p}))
        \<and> length (fit_calls kmf') = length (fit_calls example_kmf) + 1"
    using confidence_score_fraction [of example_kmf example_stack example_baseline] by blast
  have same: "{p. flood_mask (height example_stack) (width example_stack) p
             \<and> snd (event_time_scan example_stack (recovery_threshold_of example_baseline)) p = 1}
            = {p. flood_mask (height example_stack) (width example_stack) p}"
    using example_flags by blast
  have "confidence_score r = Fin 100"
    using r(2) m unfolding same example_mask_card by simp
  with r(1) show "\<exists>r kmf'. run_survival_analysis (Some example_kmf) example_stack example_baseline
                = (Some r, Some kmf') \<and> confidence_score r = Fin 100"
    by blast
  obtain r0 kmf0 where r0:
      "run_survival_analysis (Some example_kmf) small_stack example_baseline = (Some r0, Some kmf0)"
      "\<not> (\<exists>p. flood_mask (height small_stack) (width small_stack) p) \<longrightarrow>
        median_recovery_time r0 = 0 \<and> confidence_score r0 = Fin 0 \<and> kmf0 = example_kmf"
    using confidence_score_fraction [of example_kmf small_stack example_baseline] by blast
  from r0(2) n have "median_recovery_time r0 = 0 \<and> confidence_score r0 = Fin 0 \<and> kmf0 = example_kmf"
    by (rule mp)
  with r0(1) show "\<exists>r kmf'. run_survival_analysis (Some example_kmf) small_stack example_baseline
                = (Some r, Some kmf') \<and>
              median_recovery_time r = 0 \<and> confidence_score r = Fin 0 \<and> kmf' = example_kmf"
    by blast
qed

section \<open>Properties of the survival fit\<close>

lemma events_upto_0: "events_upto obs 0 = events_at obs 0"
  unfolding events_upto_def events_at_def
  by (rule arg_cong [where f = length], rule filter_cong) auto

lemma events_upto_Suc: "events_upto obs (Suc t) = events_upto obs t + events_at obs (Suc t)"
  unfolding events_upto_def events_at_def
  by (induction obs) (auto simp: le_Suc_eq)

lemma at_risk_0: "at_risk obs 0 = length obs"
  by (simp add: at_risk_def)

lemma at_risk_Suc:
  assumes "censored_at K obs" and "t < K"
  shows "at_risk obs (Suc t) + events_upto obs t = length obs"
proof -
  have "filter (\<lambda>ob. \<not> Suc t \<le> fst ob) obs = filter (\<lambda>ob. snd ob \<and> fst ob \<le> t) obs"
    using assms by (intro filter_cong) (auto simp: censored_at_def)
  then have "length (filter (\<lambda>ob. \<not> Suc t \<le> fst ob) obs) = events_upto obs t"
    by (simp add: events_upto_def)
  then show ?thesis
    using sum_length_filter_compl [of "\<lambda>ob. Suc t \<le> fst ob" obs]
    by (simp add: at_risk_def)
qed

lemma events_at_within:
  assumes "censored_at K obs" and "events_at obs t \<noteq> 0"
  shows "t \<le> K"
proof -
  have "filter (\<lambda>ob. fst ob = t \<and> snd ob) obs \<noteq> []"
    using assms(2) by (simp add: events_at_def)
  then obtain ob where "ob \<in> set obs" "fst ob = t"
    by (auto simp: filter_empty_conv)
  then show ?thesis
    using assms(1) by (auto simp: censored_at_def)
qed

lemma km_survival_closed:
  assumes "censored_at K obs" and "obs \<noteq> []"
  shows "km_survival obs t = (real (length obs) - real (events_upto obs t)) / real (length obs)"
proof (induction t)
  case 0
  have n: "real (length obs) \<noteq> 0" using assms(2) by simp
  show ?case
    using n by (simp add: km_factor_def events_upto_0 at_risk_0 field_simps)
next
  case (Suc t)
  let ?N = "real (length obs)"
  let ?D = "real (events_upto obs t)"
  let ?d = "real (events_at obs (Suc t))"
  have n: "?N \<noteq> 0" using assms(2) by simp
  show ?case
  proof (cases "events_at obs (Suc t) = 0")
    case True
    then show ?thesis
      using Suc by (simp add: km_factor_def events_upto_Suc)
  next
    case False
    then have "Suc t \<le> K"
      using assms(1) by (intro events_at_within)
    then have "t < K" by simp
    then have risk: "at_risk obs (Suc t) + events_upto obs t = length obs"
      using assms(1) by (intro at_risk_Suc)
    then have r: "real (at_risk obs (Suc t)) = ?N - ?D"
      by (metis add_diff_cancel_right' of_nat_add)
    have "events_at obs (Suc t) \<le> at_risk obs (Suc t)"
      unfolding events_at_def at_risk_def
      by (induction obs) auto
    then have pos: "?N - ?D \<noteq> 0"
      using False r by (metis le_zero_eq of_nat_eq_0_iff)
    have "km_survival obs (Suc t) = ((?N - ?D) / ?N) * (1 - ?d / (?N - ?D))"
      using Suc False by (simp add: km_factor_def r)
    also have "\<dots> = (?N - (?D + ?d)) / ?N"
      using n pos by (simp add: field_simps)
    finally show ?thesis
      by (simp add: events_upto_Suc)
  qed
qed

lemma km_survival_mono:
  assumes "censored_at K obs1" and "censored_at K obs2"
    and "obs1 \<noteq> []" and "length obs1 = length obs2"
    and "events_upto obs2 t \<le> events_upto obs1 t"
  shows "km_survival obs1 t \<le> km_survival obs2 t"
proof -
  have "obs2 \<noteq> []" using assms(3,4) by auto
  then show ?thesis
    using assms by (simp add: km_survival_closed divide_le_cancel)
qed

lemma find_upt_first:
  assumes "t < n" and "P t"
  shows "\<exists>t'. find P [0..<n] = Some t' \<and> t' \<le> t"
proof (cases "find P [0..<n]")
  case None
  then have "\<not> P t"
    using assms(1) by (auto simp: find_None_iff)
  with assms(2) show ?thesis by simp
next
  case (Some t')
  then obtain i where i: "i < length [0..<n]" "t' = [0..<n] ! i"
      "\<forall>j < i. \<not> P ([0..<n] ! j)"
    by (auto simp: find_Some_iff)
  have "t' \<le> t"
  proof (rule ccontr)
    assume "\<not> t' \<le> t"
    then have "t < i" using i(1,2) by simp
    then have "\<not> P ([0..<n] ! t)" using i(3) by simp
    then show False using assms by simp
  qed
  with Some show ?thesis by simp
qed

lemma find_upt_holds:
  assumes "find P [0..<n] = Some t"
  shows "P t"
  using assms by (auto simp: find_Some_iff)

lemma fold_max_upper: "\<forall>x \<in> set xs. x \<le> fold max xs (a::nat)"
proof (induction xs arbitrary: a)
  case Nil
  then show ?case by simp
next
  case (Cons x xs)
  have "max x a \<le> fold max xs (max x a)"
    by (induction xs arbitrary: x a) (simp_all add: le_max_iff_disj max.coboundedI2 order_trans)
  with Cons show ?case by auto
qed

lemma events_upto_beyond:
  assumes "\<forall>ob \<in> set obs. fst ob \<le> M" and "M \<le> t"
  shows "events_upto obs t = events_upto obs M"
  unfolding events_upto_def
  using assms by (intro arg_cong [where f = length] filter_cong) auto

lemma km_median_mono:
  assumes "censored_at K obs1" and "censored_at K obs2"
    and "obs1 \<noteq> []" and "length obs1 = length obs2"
    and "\<forall>t. events_upto obs2 t \<le> events_upto obs1 t"
  shows "km_median obs1 \<le> km_median obs2"
proof (cases "find (\<lambda>t. km_survival obs2 t \<le> 1 / 2) [0..<Suc (fold max (map fst obs2) 0)]")
  case None
  then show ?thesis by (simp add: km_median_def)
next
  case (Some t2)
  let ?M1 = "fold max (map fst obs1) 0"
  have low2: "km_survival obs2 t2 \<le> 1 / 2"
    using Some by (rule find_upt_holds)
  have "km_survival obs1 t2 \<le> km_survival obs2 t2"
    using assms by (intro km_survival_mono) auto
  then have low1: "km_survival obs1 t2 \<le> 1 / 2"
    using low2 by simp
  have bound: "\<forall>ob \<in> set obs1. fst ob \<le> ?M1"
    using fold_max_upper [of "map fst obs1" 0] by simp
  obtain t where t: "t < Suc ?M1" "t \<le> t2" "km_survival obs1 t \<le> 1 / 2"
  proof (cases "t2 \<le> ?M1")
    case True
    then show ?thesis using low1 that [of t2] by simp
  next
    case False
    then have "events_upto obs1 t2 = events_upto obs1 ?M1"
      using bound by (intro events_upto_beyond) auto
    then have "km_survival obs1 ?M1 = km_survival obs1 t2"
      using assms(1,3) by (simp add: km_survival_closed)
    then show ?thesis using low1 False that [of ?M1] by simp
  qed
  obtain t1 where "find (\<lambda>t. km_survival obs1 t \<le> 1 / 2) [0..<Suc ?M1] = Some t1" "t1 \<le> t"
    using find_upt_first [of t "Suc ?M1" "\<lambda>t. km_survival obs1 t \<le> 1 / 2"] t(1,3) by blast
  then show ?thesis
    using Some t(2) by (simp add: km_median_def)
qed

lemma median_after_fit:
  "median_survival_time (kmf_fit kmf ds es) = km_median (zip ds (map (\<lambda>e. e \<noteq> 0) es))"
  by (simp add: median_survival_time_def kmf_fit_def)

section \<open>The scan under two thresholds\<close>

lemma fl_ge_lower:
  assumes "fl_ge v b" and "fl_le a b"
  shows "fl_ge v a"
  using assms by (cases v; cases a; cases b) (simp_all add: fl_ge_def)

lemma event_scan_cases:
  assumes "flood_mask (height S) (width S) p"
  shows "(\<exists>k < length (frames S).
            fl_ge ((frames S ! k) p) (thr p) \<and>
            (\<forall>j < k. \<not> fl_ge ((frames S ! j) p) (thr p)) \<and>
            fst (event_time_scan S thr) p = k + 1 \<and> snd (event_time_scan S thr) p = 1)
       \<or> ((\<forall>f \<in> set (frames S). \<not> fl_ge (f p) (thr p)) \<and>
            fst (event_time_scan S thr) p = length (frames S) \<and>
            snd (event_time_scan S thr) p = 0)"
proof (cases "\<exists>f \<in> set (frames S). fl_ge (f p) (thr p)")
  case False
  then have "\<not> flood_mask (height S) (width S) p \<or>
           (\<forall>f \<in> set (take (length (frames S)) (frames S)). \<not> fl_ge (f p) (thr p))"
    by simp
  then have "fst (event_time_scan_upto (length (frames S)) S thr) p = length (frames S) \<and>
             snd (event_time_scan_upto (length (frames S)) S thr) p = 0"
    by (rule scan_upto_keep)
  then show ?thesis
    using False by (simp add: event_time_scan_full)
next
  case True
  then obtain i where i: "i < length (frames S) \<and> fl_ge ((frames S ! i) p) (thr p)"
    by (auto simp: in_set_conv_nth)
  define k where "k = (LEAST i. i < length (frames S) \<and> fl_ge ((frames S ! i) p) (thr p))"
  have k: "k < length (frames S) \<and> fl_ge ((frames S ! k) p) (thr p)"
    unfolding k_def using i by (rule LeastI)
  have least: "\<forall>j < k. \<not> fl_ge ((frames S ! j) p) (thr p)"
  proof (intro allI impI notI)
    fix j assume "j < k" "fl_ge ((frames S ! j) p) (thr p)"
    then have "j < length (frames S) \<and> fl_ge ((frames S ! j) p) (thr p)" using k by simp
    then have "k \<le> j" unfolding k_def by (rule Least_le)
    with \<open>j < k\<close> show False by simp
  qed
  have z: "(\<lambda>p. 0 :: int) p = 0" by simp
  have "fst (scan_loop thr (flood_mask (height S) (width S)) 0 (frames S)
               ((\<lambda>p. length (frames S)), (\<lambda>p. 0))) p = 0 + k + 1 \<and>
        snd (scan_loop thr (flood_mask (height S) (width S)) 0 (frames S)
               ((\<lambda>p. length (frames S)), (\<lambda>p. 0))) p = 1"
    using assms z conjunct1 [OF k] conjunct2 [OF k] least by (rule scan_loop_first_crossing)
  then have "fst (event_time_scan S thr) p = k + 1 \<and> snd (event_time_scan S thr) p = 1"
    by (simp add: event_time_scan_def)
  with k least show ?thesis by blast
qed

lemma event_scan_censored:
  "censored_at (length (frames S))
     (map (\<lambda>p. (fst (event_time_scan S thr) p, snd (event_time_scan S thr) p \<noteq> 0))
        (flooded_pixels (height S) (width S)))"
proof -
  have "fst (event_time_scan S thr) p \<le> length (frames S) \<and>
        (snd (event_time_scan S thr) p = 0 \<longrightarrow>
           fst (event_time_scan S thr) p = length (frames S))"
    if "flood_mask (height S) (width S) p" for p
    using event_scan_cases [OF that, of thr] by auto
  then show ?thesis
    by (auto simp: censored_at_def set_flooded_pixels)
qed

lemma event_scan_mono:
  assumes "flood_mask (height S) (width S) p" and "fl_le (thr1 p) (thr2 p)"
    and "snd (event_time_scan S thr2) p \<noteq> 0"
  shows "snd (event_time_scan S thr1) p \<noteq> 0 \<and>
         fst (event_time_scan S thr1) p \<le> fst (event_time_scan S thr2) p"
proof -
  obtain k2 where k2: "k2 < length (frames S)" "fl_ge ((frames S ! k2) p) (thr2 p)"
      "fst (event_time_scan S thr2) p = k2 + 1"
    using event_scan_cases [OF assms(1), of thr2] assms(3) by auto
  have c1: "fl_ge ((frames S ! k2) p) (thr1 p)"
    using k2(2) assms(2) by (rule fl_ge_lower)
  have "frames S ! k2 \<in> set (frames S)"
    using k2(1) by simp
  then have "\<not> (\<forall>f \<in> set (frames S). \<not> fl_ge (f p) (thr1 p))"
    using c1 by blast
  then obtain k1 where k1: "\<forall>j < k1. \<not> fl_ge ((frames S ! j) p) (thr1 p)"
      "fst (event_time_scan S thr1) p = k1 + 1" "snd (event_time_scan S thr1) p = 1"
    using event_scan_cases [OF assms(1), of thr1] by auto
  have "k1 \<le> k2"
    using k1(1) c1 by (meson not_le_imp_less)
  then show ?thesis
    using k1(2,3) k2(3) by simp
qed

lemma length_filter_mono:
  assumes "\<forall>x \<in> set xs. P x \<longrightarrow> Q x"
  shows "length (filter P xs) \<le> length (filter Q xs)"
  using assms by (induction xs) auto

lemma events_upto_scan:
  "events_upto (map (\<lambda>p. (t p, e p \<noteq> (0::int))) ps) \<tau> =
   length (filter (\<lambda>p. e p \<noteq> 0 \<and> t p \<le> \<tau>) ps)"
  by (simp add: events_upto_def filter_map comp_def)

lemma scan_obs_zip:
  "zip (map t ps) (map ((\<lambda>e. e \<noteq> (0::int)) \<circ> e) ps) = map (\<lambda>p. (t p, e p \<noteq> 0)) ps"
  by (induction ps) simp_all

text \<open>
  C9. For a fixed stack and flood mask and two thresholds with \<open>thr1 \<le> thr2\<close> at
  every masked pixel, the median recovery time under \<open>thr2\<close> is at least the one
  under \<open>thr1\<close>. The scan censors only at the last step, so the product-limit
  estimate is the share of masked pixels without an event so far; a higher threshold
  delays or removes each pixel's event, which raises that share at every time.
\<close>

theorem median_monotone_in_threshold:
  assumes "\<forall>p. flood_mask (height S) (width S) p \<longrightarrow> fl_le (thr1 p) (thr2 p)"
  shows "median_recovery_time (fst (survival_at_threshold kmf S thr1))
         \<le> median_recovery_time (fst (survival_at_threshold kmf S thr2))"
proof (cases "flooded_pixels (height S) (width S) = []")
  case True
  then show ?thesis
    by (simp add: survival_at_threshold_empty)
next
  case False
  let ?fp = "flooded_pixels (height S) (width S)"
  let ?obs = "\<lambda>thr. map (\<lambda>p. (fst (event_time_scan S thr) p, snd (event_time_scan S thr) p \<noteq> 0)) ?fp"
  have med: "median_recovery_time (fst (survival_at_threshold kmf S thr)) = km_median (?obs thr)"
    for thr
    using False by (simp add: survival_at_threshold_nonempty median_after_fit scan_obs_zip)
  have c1: "censored_at (length (frames S)) (?obs thr1)"
    by (rule event_scan_censored)
  have c2: "censored_at (length (frames S)) (?obs thr2)"
    by (rule event_scan_censored)
  have ne: "?obs thr1 \<noteq> []"
    using False by simp
  have len: "length (?obs thr1) = length (?obs thr2)"
    by simp
  have ev: "events_upto (?obs thr2) \<tau> \<le> events_upto (?obs thr1) \<tau>" for \<tau>
    unfolding events_upto_scan
  proof (rule length_filter_mono, intro ballI impI)
    fix p
    assume p: "p \<in> set ?fp"
      and e2: "snd (event_time_scan S thr2) p \<noteq> 0 \<and> fst (event_time_scan S thr2) p \<le> \<tau>"
    have m: "flood_mask (height S) (width S) p"
      using p by (simp add: set_flooded_pixels)
    then have le: "fl_le (thr1 p) (thr2 p)"
      using assms by blast
    have "snd (event_time_scan S thr1) p \<noteq> 0 \<and>
          fst (event_time_scan S thr1) p \<le> fst (event_time_scan S thr2) p"
      using m le conjunct1 [OF e2]
      by (rule event_scan_mono [where ?thr1.0 = thr1 and ?thr2.0 = thr2])
    with e2 show "snd (event_time_scan S thr1) p \<noteq> 0 \<and> fst (event_time_scan S thr1) p \<le> \<tau>"
      by simp
  qed
  have "km_median (?obs thr1) \<le> km_median (?obs thr2)"
    using c1 c2 ne len ev by (intro km_median_mono) auto
  then show ?thesis
    by (simp only: med)
qed

lemma example_flooded_pixels:
  "flooded_pixels (height example_stack) (width example_stack) =
     [(150, 150), (150, 151), (151, 150), (151, 151)]"
  by (simp add: flooded_pixels_upt example_stack_def upt_rec)

lemma example_median_low:
  "median_recovery_time
     (fst (survival_at_threshold example_kmf example_stack (recovery_threshold_of example_baseline)))
   = 2"
proof -
  have obs: "fst (event_time_scan example_stack (recovery_threshold_of example_baseline)) (150, 150) = 2 \<and>
      snd (event_time_scan example_stack (recovery_threshold_of example_baseline)) (150, 150) = 1 \<and>
      fst (event_time_scan example_stack (recovery_threshold_of example_baseline)) (150, 151) = 3 \<and>
      snd (event_time_scan example_stack (recovery_threshold_of example_baseline)) (150, 151) = 1 \<and>
      fst (event_time_scan example_stack (recovery_threshold_of example_baseline)) (151, 150) = 2 \<and>
      snd (event_time_scan example_stack (recovery_threshold_of example_baseline)) (151, 150) = 1 \<and>
      fst (event_time_scan example_stack (recovery_threshold_of example_baseline)) (151, 151) = 3 \<and>
      snd (event_time_scan example_stack (recovery_threshold_of example_baseline)) (151, 151) = 1"
    by (simp add: event_time_scan_def example_stack_def recovery_threshold_of_def
        example_baseline_def fl_ge_def flood_mask_def in_grid_def Let_def)
  have km: "km_median [(2, True), (3, True), (2, True), (3, True)] = 2"
    by code_simp
  show ?thesis
    by (simp add: survival_at_threshold_def Let_def example_flooded_pixels median_after_fit obs km)
qed

lemma example_median_high:
  "median_recovery_time
     (fst (survival_at_threshold example_kmf example_stack (recovery_threshold_of mid_baseline)))
   = 3"
proof -
  have obs: "fst (event_time_scan example_stack (recovery_threshold_of mid_baseline)) (150, 150) = 3 \<and>
      snd (event_time_scan example_stack (recovery_threshold_of mid_baseline)) (150, 150) = 1 \<and>
      fst (event_time_scan example_stack (recovery_threshold_of mid_baseline)) (150, 151) = 3 \<and>
      snd (event_time_scan example_stack (recovery_threshold_of mid_baseline)) (150, 151) = 1 \<and>
      fst (event_time_scan example_stack (recovery_threshold_of mid_baseline)) (151, 150) = 3 \<and>
      snd (event_time_scan example_stack (recovery_threshold_of mid_baseline)) (151, 150) = 1 \<and>
      fst (event_time_scan example_stack (recovery_threshold_of mid_baseline)) (151, 151) = 3 \<and>
      snd (event_time_scan example_stack (recovery_threshold_of mid_baseline)) (151, 151) = 1"
    by (simp add: event_time_scan_def example_stack_def recovery_threshold_of_def
        mid_baseline_def fl_ge_def flood_mask_def in_grid_def Let_def)
  have km: "km_median [(3, True), (3, True), (3, True), (3, True)] = 3"
    by code_simp
  show ?thesis
    by (simp add: survival_at_threshold_def Let_def example_flooded_pixels median_after_fit obs km)
qed

theorem median_monotone_in_threshold_witness:
  "(\<forall>p. fl_le (recovery_threshold_of example_baseline p) (recovery_threshold_of mid_baseline p)) \<and>
   median_recovery_time
     (fst (survival_at_threshold example_kmf example_stack (recovery_threshold_of example_baseline)))
   \<le> median_recovery_time
     (fst (survival_at_threshold example_kmf example_stack (recovery_threshold_of mid_baseline))) \<and>
   median_recovery_time
     (fst (survival_at_threshold example_kmf example_stack (recovery_threshold_of example_baseline)))
   = 2 \<and>
   median_recovery_time
     (fst (survival_at_threshold example_kmf example_stack (recovery_threshold_of mid_baseline)))
   = 3"
proof -
  have a: "\<forall>p. fl_le (recovery_threshold_of example_baseline p) (recovery_threshold_of mid_baseline p)"
    by (simp add: recovery_threshold_of_def example_baseline_def mid_baseline_def)
  then have h: "\<forall>p. flood_mask (height example_stack) (width example_stack) p \<longrightarrow>
        fl_le (recovery_threshold_of example_baseline p) (recovery_threshold_of mid_baseline p)"
    by simp
  show ?thesis
    using a median_monotone_in_threshold [OF h, of example_kmf]
      example_median_low example_median_high
    by (intro conjI)
qed

end
